theory Spec2Isabelle
  imports Complex_Main "HOL-Library.Multiset"
begin

section \<open>Data model\<close>

text \<open>
  The matchmaking core of \<^verbatim>\<open>main.py\<close>: the rank table and the rating update, the
  nested queue dictionaries with joining and leaving, the periodic queue checker that
  forms matches, and the processing of a reported result.

  Conventions of the embedding.
  \<^item> Python exceptions are values of \<open>py_error\<close>. A function that mutates global state and
    may raise returns the state it has reached together with \<open>Some e\<close> when it raised and
    \<open>None\<close> when it returned: the mutations made before a raise stay visible.
  \<^item> Python's \<^verbatim>\<open>float\<close> is idealised as \<open>real\<close>: rounding and the range limit of binary
    floating point are not part of the model. In particular \<^verbatim>\<open>10 ** x\<close> raises
    \<^verbatim>\<open>OverflowError\<close> when the ratings are more than about 123000 apart, and the model
    has no such raise. The ratings computed below are at values where floating point
    arithmetic yields the same integers.
  \<^item> Strings are byte strings; the team-size labels of the source are ASCII.
  \<^item> Sending messages, assigning roles and writing the JSON files are effects on
    external collaborators and are not part of the state.
\<close>

datatype py_error = IndexError | ValueError | ZeroDivisionError | KeyError

text \<open>An entry of a player's match history: a dictionary literal with string values.\<close>

type_synonym history_entry = "(string \<times> string) list"

record Player =
  discord_id :: string
  rl_username :: string
  platform :: string
  region :: string
  mmr :: int
  rank :: string
  stats :: "string \<rightharpoonup> int"
  match_history :: "history_entry list"

text \<open>
  The fields \<^verbatim>\<open>region\<close> and \<^verbatim>\<open>players\<close> of the dataclass \<^verbatim>\<open>Match\<close> are named
  \<open>match_region\<close> and \<open>match_players\<close>: the plain names are taken by \<open>Player\<close> and by the
  global dictionary.
\<close>

record Match =
  match_id :: string
  mode :: string
  map_name :: string
  match_region :: string
  team_size :: string
  match_players :: "string list"
  status :: string
  created_at :: string
  room_name :: string
  room_password :: string

text \<open>
  The nested \<^verbatim>\<open>defaultdict\<close> \<^verbatim>\<open>queues[region][mode][team_size]\<close>: association lists in
  insertion order, which is the order Python iterates a dictionary in.
\<close>

type_synonym queue_table = "(string \<times> (string \<times> (string \<times> string list) list) list) list"

record state =
  players :: "string \<rightharpoonup> Player"
  queues :: queue_table
  matches :: "string \<rightharpoonup> Match"

section \<open>Rank table and rating update\<close>

definition RANKS :: "(int \<times> string) list" where
  "RANKS = [
    (0, ''Bronze I''), (200, ''Bronze II''), (300, ''Bronze III''),
    (400, ''Silver I''), (500, ''Silver II''), (600, ''Silver III''),
    (700, ''Gold I''), (800, ''Gold II''), (900, ''Gold III''),
    (1000, ''Platinum I''), (1100, ''Platinum II''), (1200, ''Platinum III''),
    (1300, ''Diamond I''), (1400, ''Diamond II''), (1500, ''Diamond III''),
    (1600, ''Champion I''), (1700, ''Champion II''), (1800, ''Champion III''),
    (1900, ''Grand Champion I''), (2000, ''Grand Champion II''),
    (2100, ''Grand Champion III''), (2200, ''Supersonic Legend'')]"

text \<open>The loop of \<^verbatim>\<open>get_rank\<close> over a list of (threshold, rank) pairs, with its fallback.\<close>

fun rank_scan :: "(int \<times> string) list \<Rightarrow> int \<Rightarrow> string" where
  "rank_scan [] rating = ''Bronze I''"
| "rank_scan ((threshold, name) # rest) rating =
     (if rating \<ge> threshold then name else rank_scan rest rating)"

definition get_rank :: "int \<Rightarrow> string" where
  "get_rank rating = rank_scan (rev RANKS) rating"

text \<open>The position of a rank name in the table, counted from the lowest tier.\<close>

definition tier_index :: "string \<Rightarrow> nat" where
  "tier_index name = length (takeWhile (\<lambda>(threshold, tier). tier \<noteq> name) RANKS)"

text \<open>Python's \<^verbatim>\<open>int(x)\<close> on a float: truncation toward zero.\<close>

definition py_int :: "real \<Rightarrow> int" where
  "py_int x = (if x \<ge> 0 then \<lfloor>x\<rfloor> else \<lceil>x\<rceil>)"

text \<open>
  The rating change of \<^verbatim>\<open>update_player_mmr\<close>: the expected score, the actual score and
  the truncated product with the K-factor.
\<close>

definition mmr_change_of :: "bool \<Rightarrow> int \<Rightarrow> real \<Rightarrow> int" where
  "mmr_change_of won player_mmr opponent_mmr =
     (let k_factor = 32;
          expected = 1 / (1 + 10 powr ((opponent_mmr - real_of_int player_mmr) / 400));
          actual = (if won then 1 else 0)
      in py_int (k_factor * (actual - expected)))"

text \<open>
  \<^verbatim>\<open>update_player_mmr\<close> on the dictionary of players. The rating and the rank are
  assigned before the counter is incremented, so a missing counter key raises after
  they have changed.
\<close>

definition update_player_mmr ::
  "(string \<rightharpoonup> Player) \<Rightarrow> string \<Rightarrow> bool \<Rightarrow> real \<Rightarrow> (string \<rightharpoonup> Player) \<times> py_error option" where
  "update_player_mmr ps player_id won opponent_mmr =
     (case ps player_id of
        None \<Rightarrow> (ps, None)
      | Some player \<Rightarrow>
          let mmr_change = mmr_change_of won (mmr player) opponent_mmr;
              player1 = player\<lparr>mmr := max 0 (mmr player + mmr_change)\<rparr>;
              player2 = player1\<lparr>rank := get_rank (mmr player1)\<rparr>;
              key = (if won then ''wins'' else ''losses'')
          in (case stats player2 key of
                None \<Rightarrow> (ps(player_id \<mapsto> player2), Some KeyError)
              | Some n \<Rightarrow>
                  (ps(player_id \<mapsto> player2\<lparr>stats := (stats player2)(key \<mapsto> n + 1)\<rparr>), None)))"

section \<open>Registration\<close>

text \<open>Python's \<^verbatim>\<open>str\<close> of an integer: decimal digits, with a minus sign when negative.\<close>

fun digits :: "nat \<Rightarrow> string" where
  "digits n =
     (if n < 10 then [''0123456789'' ! n] else digits (n div 10) @ [''0123456789'' ! (n mod 10)])"

declare digits.simps [simp del]

definition py_str :: "int \<Rightarrow> string" where
  "py_str i = (if i < 0 then CHR ''-'' # digits (nat (- i)) else digits (nat i))"

text \<open>
  \<^verbatim>\<open>RegionSelectView.region_select\<close>: the view holds \<^verbatim>\<open>rl_username\<close>, \<^verbatim>\<open>platform\<close> and
  \<^verbatim>\<open>user_id\<close>; the selected region is \<^verbatim>\<open>select.values[0]\<close>. The new player is stored
  under \<^verbatim>\<open>str(self.user_id)\<close>, replacing whatever was there.
\<close>

definition new_player :: "string \<Rightarrow> string \<Rightarrow> int \<Rightarrow> string \<Rightarrow> Player" where
  "new_player self_rl_username self_platform self_user_id region_v =
     \<lparr>discord_id = py_str self_user_id,
      rl_username = self_rl_username,
      platform = self_platform,
      region = region_v,
      mmr = 1000,
      rank = ''Gold I'',
      stats = [''wins'' \<mapsto> 0, ''losses'' \<mapsto> 0, ''goals'' \<mapsto> 0, ''assists'' \<mapsto> 0, ''saves'' \<mapsto> 0],
      match_history = []\<rparr>"

definition region_select :: "string \<Rightarrow> string \<Rightarrow> int \<Rightarrow> string \<Rightarrow> state \<Rightarrow> state" where
  "region_select self_rl_username self_platform self_user_id region_v st =
     st\<lparr>players := (players st)(py_str self_user_id \<mapsto>
           new_player self_rl_username self_platform self_user_id region_v)\<rparr>"

section \<open>Queues\<close>

text \<open>
  \<^verbatim>\<open>int(team_size[0])\<close>: \<^verbatim>\<open>IndexError\<close> on the empty string, \<^verbatim>\<open>ValueError\<close> when the first
  character is not a decimal digit.
\<close>

definition team_size_int :: "string \<Rightarrow> py_error + nat" where
  "team_size_int label =
     (case label of
        [] \<Rightarrow> Inl IndexError
      | c # _ \<Rightarrow>
          (let code = (of_char c :: nat)
           in if 48 \<le> code \<and> code \<le> 57 then Inr (code - 48) else Inl ValueError))"

text \<open>
  An access \<^verbatim>\<open>d[k]\<close> to a \<^verbatim>\<open>defaultdict\<close> followed by a change of the value: a missing
  key is inserted at the end with the default value first.
\<close>

fun dd_modify :: "'k \<Rightarrow> 'v \<Rightarrow> ('v \<Rightarrow> 'v) \<Rightarrow> ('k \<times> 'v) list \<Rightarrow> ('k \<times> 'v) list" where
  "dd_modify k d f [] = [(k, f d)]"
| "dd_modify k d f ((k', v) # kvs) =
     (if k' = k then (k', f v) # kvs else (k', v) # dd_modify k d f kvs)"

text \<open>
  A loop over the items of a dictionary that replaces each value by a function of it,
  and the values of a dictionary in iteration order.
\<close>

fun map_values :: "('v \<Rightarrow> 'w) \<Rightarrow> ('k \<times> 'v) list \<Rightarrow> ('k \<times> 'w) list" where
  "map_values f [] = []"
| "map_values f ((k, v) # rest) = (k, f v) # map_values f rest"

definition dict_values :: "('k \<times> 'v) list \<Rightarrow> 'v list" where
  "dict_values d = map snd d"

text \<open>
  The three nested loops shared by \<^verbatim>\<open>join_queue\<close> and \<^verbatim>\<open>leave_queue\<close>: every list that
  contains the user loses the first occurrence (\<^verbatim>\<open>list.remove\<close>).
\<close>

definition remove_from_queues :: "string \<Rightarrow> queue_table \<Rightarrow> queue_table" where
  "remove_from_queues user_id qs =
     map_values (map_values (map_values
       (\<lambda>q. if user_id \<in> set q then remove1 user_id q else q))) qs"

text \<open>Every waiting list of the table, in iteration order.\<close>

definition waiting_lists :: "queue_table \<Rightarrow> string list list" where
  "waiting_lists qs =
     concat (map (\<lambda>modes. concat (map dict_values (dict_values modes))) (dict_values qs))"

text \<open>
  The list a key triple denotes, without the side effect of a \<^verbatim>\<open>defaultdict\<close> access:
  the empty list when a level has no such key.
\<close>

definition queue_at :: "queue_table \<Rightarrow> string \<Rightarrow> string \<Rightarrow> string \<Rightarrow> string list" where
  "queue_at qs r m t =
     (case map_of qs r of
        None \<Rightarrow> []
      | Some modes \<Rightarrow>
          (case map_of modes m of
             None \<Rightarrow> []
           | Some sizes \<Rightarrow> (case map_of sizes t of None \<Rightarrow> [] | Some q \<Rightarrow> q)))"

text \<open>
  The keys of the tables \<^verbatim>\<open>REGIONS\<close>, \<^verbatim>\<open>MODES\<close> and \<^verbatim>\<open>TEAM_SIZES\<close>, in their order. The
  display names they map to are shown to users and decide nothing.
\<close>

definition REGIONS :: "string list" where
  "REGIONS = [''NA-East'', ''NA-West'', ''EU'', ''ASIA'', ''OCE'', ''SAM'', ''ME'']"

definition MODES :: "string list" where
  "MODES = [''Soccar'', ''Hoops'', ''Rumble'', ''Dropshot'', ''Snow Day'', ''Heatseeker'']"

definition TEAM_SIZES :: "string list" where
  "TEAM_SIZES = [''1v1'', ''2v2'', ''3v3'']"

text \<open>The selections a \<^verbatim>\<open>QueueDashboard\<close> view holds; each starts as \<^verbatim>\<open>None\<close>.\<close>

record QueueDashboard =
  selected_mode :: "string option"
  selected_map :: "string option"
  selected_team_size :: "string option"
  selected_region :: "string option"

text \<open>Truth value of \<^verbatim>\<open>None\<close> or a string: \<^verbatim>\<open>None\<close> and the empty string are false.\<close>

definition truthy :: "string option \<Rightarrow> bool" where
  "truthy v = (case v of None \<Rightarrow> False | Some s \<Rightarrow> s \<noteq> [])"

text \<open>
  \<^verbatim>\<open>QueueDashboard.join_queue\<close>, with \<open>user_id\<close> the local \<^verbatim>\<open>str(interaction.user.id)\<close>.
  The two early returns leave the state alone. The reply is built after the queues were
  changed: a label that \<^verbatim>\<open>needed\<close> cannot be computed from raises \<^verbatim>\<open>ValueError\<close>, and a
  mode, a team size or a region that is no key of its table raises \<^verbatim>\<open>KeyError\<close>, each
  with the user enqueued.
\<close>

definition join_queue :: "QueueDashboard \<Rightarrow> string \<Rightarrow> state \<Rightarrow> state \<times> py_error option" where
  "join_queue self user_id st =
     (case players st user_id of
        None \<Rightarrow> (st, None)
      | Some player \<Rightarrow>
          if \<not> (truthy (selected_mode self) \<and> truthy (selected_map self) \<and>
                 truthy (selected_team_size self))
          then (st, None)
          else
            let region_v = region player;
                mode_v = the (selected_mode self);
                size_v = the (selected_team_size self);
                qs = remove_from_queues user_id (queues st);
                qs' = dd_modify region_v [] (dd_modify mode_v [] (dd_modify size_v []
                        (\<lambda>q. q @ [user_id]))) qs;
                st' = st\<lparr>queues := qs'\<rparr>
            in (case team_size_int size_v of
                  Inl e \<Rightarrow> (st', Some e)
                | Inr n \<Rightarrow>
                    if mode_v \<in> set MODES \<and> size_v \<in> set TEAM_SIZES \<and> region_v \<in> set REGIONS
                    then (st', None)
                    else (st', Some KeyError)))"

text \<open>
  \<^verbatim>\<open>QueueDashboard.leave_queue\<close>: the new state and the flag \<^verbatim>\<open>removed\<close>.
\<close>

definition leave_queue :: "string \<Rightarrow> state \<Rightarrow> state \<times> bool" where
  "leave_queue user_id st =
     (st\<lparr>queues := remove_from_queues user_id (queues st)\<rparr>,
      \<exists>q \<in> set (waiting_lists (queues st)). user_id \<in> set q)"

text \<open>All waiting player ids of the table, queue after queue.\<close>

definition all_waiting :: "queue_table \<Rightarrow> string list" where
  "all_waiting qs = concat (waiting_lists qs)"

text \<open>The ids waiting under one mode entry and under one region entry.\<close>

definition flat_sizes :: "(string \<times> string list) list \<Rightarrow> string list" where
  "flat_sizes sizes = concat (dict_values sizes)"

definition flat_modes :: "(string \<times> (string \<times> string list) list) list \<Rightarrow> string list" where
  "flat_modes modes = concat (map flat_sizes (dict_values modes))"

section \<open>Forming matches\<close>

definition MAPS :: "(string \<times> string list) list" where
  "MAPS = [
    (''Soccar'', [''DFH Stadium'', ''Mannfield'', ''Champions Field'', ''Neo Tokyo'',
                  ''Urban Central'', ''Beckwith Park'']),
    (''Hoops'', [''Dunk House'', ''The Block'']),
    (''Rumble'', [''DFH Stadium'', ''Mannfield'', ''Champions Field'']),
    (''Dropshot'', [''Core 707'', ''Throwback Stadium'']),
    (''Snow Day'', [''Snowy DFH Stadium'', ''Wintry Mannfield'']),
    (''Heatseeker'', [''DFH Stadium'', ''Mannfield'', ''Champions Field''])]"

text \<open>
  The random source and the clock are inputs. Forming one match reads four random
  numbers and the time; \<open>draws\<close> holds the raw values of one match, and a tick gets a
  function from the number of matches formed so far in the tick to the draws of the next.
  \<^verbatim>\<open>random.randint(lo, hi)\<close> maps a raw value into \<open>lo..hi\<close>, \<^verbatim>\<open>random.choice\<close> picks the
  element at the raw value modulo the length and raises \<^verbatim>\<open>IndexError\<close> on an empty list.
\<close>

record draws =
  id_draw :: nat
  map_draw :: nat
  room_draw :: nat
  password_draw :: nat
  clock :: string

definition randint :: "int \<Rightarrow> int \<Rightarrow> nat \<Rightarrow> int" where
  "randint lo hi raw = lo + int raw mod (hi - lo + 1)"

definition choice :: "'a list \<Rightarrow> nat \<Rightarrow> py_error + 'a" where
  "choice seq raw = (if seq = [] then Inl IndexError else Inr (seq ! (raw mod length seq)))"

text \<open>
  The loop \<^verbatim>\<open>for p in selected_players: queue.remove(p)\<close>; \<^verbatim>\<open>list.remove\<close> raises
  \<^verbatim>\<open>ValueError\<close> when the element is absent.
\<close>

fun remove_all :: "string list \<Rightarrow> string list \<Rightarrow> string list \<times> py_error option" where
  "remove_all [] q = (q, None)"
| "remove_all (p # ps) q =
     (if p \<in> set q then remove_all ps (remove1 p q) else (q, Some ValueError))"

text \<open>
  The construction of the match from the draws \<open>d\<close>: the identifier, the map, the room
  name and the password are drawn in this order.
\<close>

definition form_match ::
  "draws \<Rightarrow> string \<Rightarrow> string \<Rightarrow> string \<Rightarrow> string list \<Rightarrow> py_error + Match" where
  "form_match d region_v mode_v team_size_v selected_players =
     (let new_id = ''match_'' @ py_str (randint 10000 99999 (id_draw d))
      in (case choice (case map_of MAPS mode_v of None \<Rightarrow> [''DFH Stadium''] | Some l \<Rightarrow> l)
                 (map_draw d) of
            Inl e \<Rightarrow> Inl e
          | Inr new_map \<Rightarrow>
              Inr \<lparr>match_id = new_id,
                   mode = mode_v,
                   map_name = new_map,
                   match_region = region_v,
                   team_size = team_size_v,
                   match_players = selected_players,
                   status = ''Active'',
                   created_at = clock d,
                   room_name = ''OS'' @ py_str (randint 1000 9999 (room_draw d)),
                   room_password = py_str (randint 100 999 (password_draw d))\<rparr>))"

text \<open>
  The body of the innermost loop of \<^verbatim>\<open>queue_checker\<close> for one queue: the waiting list
  of the key, and the matches dictionary with the count of matches formed in this tick.
  The new match is stored under its identifier, whatever was stored there. The body is
  modelled up to the storing of the match: the call of \<^verbatim>\<open>notify_match_found\<close> that follows
  changes neither the queues nor the matches and is left out, together with the
  \<^verbatim>\<open>KeyError\<close> it raises for a region that is no key of \<^verbatim>\<open>REGIONS\<close>.
\<close>

definition check_queue ::
  "(nat \<Rightarrow> draws) \<Rightarrow> string \<Rightarrow> string \<Rightarrow> string \<Rightarrow> string list \<Rightarrow> (string \<rightharpoonup> Match) \<times> nat \<Rightarrow>
   (string list \<times> (string \<rightharpoonup> Match) \<times> nat) \<times> py_error option" where
  "check_queue env region_v mode_v team_size_v player_list s =
     (case s of (ms, k) \<Rightarrow>
      (case team_size_int team_size_v of
         Inl e \<Rightarrow> ((player_list, ms, k), Some e)
       | Inr n \<Rightarrow>
           let needed = n * 2 in
           if length player_list \<ge> needed then
             let selected_players = take needed player_list in
             (case remove_all selected_players player_list of
                (q', Some e) \<Rightarrow> ((q', ms, k), Some e)
              | (q', None) \<Rightarrow>
                  (case form_match (env k) region_v mode_v team_size_v selected_players of
                     Inl e \<Rightarrow> ((q', ms, k), Some e)
                   | Inr new_match \<Rightarrow>
                       ((q', ms(match_id new_match \<mapsto> new_match), Suc k), None)))
           else ((player_list, ms, k), None)))"

text \<open>
  A \<^verbatim>\<open>for\<close> loop over the items of a dictionary whose body may change the value of the
  key and a state, and may raise: the loop stops at the first raise.
\<close>

fun for_items ::
  "('k \<Rightarrow> 'v \<Rightarrow> 's \<Rightarrow> ('v \<times> 's) \<times> py_error option) \<Rightarrow> ('k \<times> 'v) list \<Rightarrow> 's \<Rightarrow>
   (('k \<times> 'v) list \<times> 's) \<times> py_error option" where
  "for_items body [] s = (([], s), None)"
| "for_items body ((k, v) # rest) s =
     (case body k v s of
        ((v', s'), Some e) \<Rightarrow> (((k, v') # rest, s'), Some e)
      | ((v', s'), None) \<Rightarrow>
          (case for_items body rest s' of
             ((rest', s''), e) \<Rightarrow> (((k, v') # rest', s''), e)))"

text \<open>
  One run of \<^verbatim>\<open>queue_checker\<close>, with the notification of the players of a formed
  match left out as in \<open>check_queue\<close>.
\<close>

definition queue_checker :: "(nat \<Rightarrow> draws) \<Rightarrow> state \<Rightarrow> state \<times> py_error option" where
  "queue_checker env st =
     (case for_items
             (\<lambda>region_v modes. for_items
               (\<lambda>mode_v sizes. for_items
                 (\<lambda>team_size_v player_list. check_queue env region_v mode_v team_size_v player_list)
                 sizes)
               modes)
             (queues st) (matches st, 0) of
        ((qs, (ms, k)), e) \<Rightarrow> (st\<lparr>queues := qs, matches := ms\<rparr>, e))"

section \<open>Processing a reported result\<close>

text \<open>
  \<^verbatim>\<open>sum(players[p].mmr for p in team if p in players) / len(team)\<close>: the sum ranges
  over the registered members, the divisor is the length of the whole team.
\<close>

definition team_avg :: "(string \<rightharpoonup> Player) \<Rightarrow> string list \<Rightarrow> py_error + real" where
  "team_avg ps team =
     (if length team = 0 then Inl ZeroDivisionError
      else Inr (real_of_int (sum_list (map (\<lambda>p. mmr (the (ps p))) (filter (\<lambda>p. ps p \<noteq> None) team)))
                / real (length team)))"

definition history_entry_of :: "Match \<Rightarrow> bool \<Rightarrow> string \<Rightarrow> history_entry" where
  "history_entry_of self_match won timestamp =
     [(''match_id'', match_id self_match),
      (''result'', if won then ''win'' else ''loss''),
      (''mode'', mode self_match),
      (''map'', map_name self_match),
      (''team_size'', team_size self_match),
      (''region'', match_region self_match),
      (''timestamp'', timestamp)]"

text \<open>
  The loop over one team. \<open>now i\<close> is the reading of the clock for the participant at
  position \<open>i\<close> of the match's player list.
\<close>

fun team_loop ::
  "Match \<Rightarrow> bool \<Rightarrow> real \<Rightarrow> (nat \<Rightarrow> string) \<Rightarrow> nat \<Rightarrow> string list \<Rightarrow> (string \<rightharpoonup> Player) \<Rightarrow>
   (string \<rightharpoonup> Player) \<times> py_error option" where
  "team_loop self_match won opponent_avg now i [] ps = (ps, None)"
| "team_loop self_match won opponent_avg now i (player_id # rest) ps =
     (if ps player_id \<noteq> None then
        (case update_player_mmr ps player_id won opponent_avg of
           (ps1, Some e) \<Rightarrow> (ps1, Some e)
         | (ps1, None) \<Rightarrow>
             (case ps1 player_id of
                None \<Rightarrow> (ps1, Some KeyError)
              | Some player \<Rightarrow>
                  team_loop self_match won opponent_avg now (Suc i) rest
                    (ps1(player_id \<mapsto> player\<lparr>match_history :=
                       match_history player @ [history_entry_of self_match won (now i)]\<rparr>))))
      else team_loop self_match won opponent_avg now (Suc i) rest ps)"

text \<open>
  \<^verbatim>\<open>MatchResultView.process_result\<close>: \<open>self_match\<close> is the match the view was built
  with, \<open>winner\<close> the string the button passes. There is no test of the match's status.
\<close>

definition process_result ::
  "Match \<Rightarrow> string \<Rightarrow> (nat \<Rightarrow> string) \<Rightarrow> state \<Rightarrow> state \<times> py_error option" where
  "process_result self_match winner now st =
     (case team_size_int (team_size self_match) of
        Inl e \<Rightarrow> (st, Some e)
      | Inr n \<Rightarrow>
          let orange_team = take n (match_players self_match);
              blue_team = drop n (match_players self_match)
          in (case team_avg (players st) orange_team of
                Inl e \<Rightarrow> (st, Some e)
              | Inr orange_avg \<Rightarrow>
                  (case team_avg (players st) blue_team of
                     Inl e \<Rightarrow> (st, Some e)
                   | Inr blue_avg \<Rightarrow>
                       (case team_loop self_match (winner = ''Orange'') blue_avg now 0
                               orange_team (players st) of
                          (ps1, Some e) \<Rightarrow> (st\<lparr>players := ps1\<rparr>, Some e)
                        | (ps1, None) \<Rightarrow>
                            (case team_loop self_match (winner = ''Blue'') orange_avg now n
                                    blue_team ps1 of
                               (ps2, Some e) \<Rightarrow> (st\<lparr>players := ps2\<rparr>, Some e)
                             | (ps2, None) \<Rightarrow>
                                 (case matches st (match_id self_match) of
                                    None \<Rightarrow> (st\<lparr>players := ps2\<rparr>, Some KeyError)
                                  | Some stored \<Rightarrow>
                                      (st\<lparr>players := ps2,
                                          matches := (matches st)(match_id self_match \<mapsto>
                                            stored\<lparr>status := ''Completed''\<rparr>)\<rparr>, None)))))))"

section \<open>Events\<close>

text \<open>
  What changes the state: a registration, a join and a leave on the dashboard, a run of
  the queue checker, and a report on the view of a match.
\<close>

datatype event =
    Register string string int string
  | Join QueueDashboard string
  | Leave string
  | Tick "nat \<Rightarrow> draws"
  | Report Match string "nat \<Rightarrow> string"

fun apply_event :: "event \<Rightarrow> state \<Rightarrow> state" where
  "apply_event (Register self_rl_username self_platform self_user_id region_v) st =
     region_select self_rl_username self_platform self_user_id region_v st"
| "apply_event (Join self user_id) st = fst (join_queue self user_id st)"
| "apply_event (Leave user_id) st = fst (leave_queue user_id st)"
| "apply_event (Tick env) st = fst (queue_checker env st)"
| "apply_event (Report self_match winner now) st = fst (process_result self_match winner now st)"

section \<open>Observations and relations used in the statements\<close>

text \<open>What a caller can read of a player and of a match.\<close>

definition player_mmr :: "state \<Rightarrow> string \<Rightarrow> int option" where
  "player_mmr st pid = map_option mmr (players st pid)"




text \<open>The counter a result increments.\<close>

definition result_key :: "bool \<Rightarrow> string" where
  "result_key won = (if won then ''wins'' else ''losses'')"

text \<open>
  What result processing leaves alone in a player: the profile fields, every counter
  other than wins and losses, and the set of counters present.
\<close>

definition same_profile :: "Player \<Rightarrow> Player \<Rightarrow> bool" where
  "same_profile p p' \<longleftrightarrow>
     discord_id p' = discord_id p \<and> rl_username p' = rl_username p \<and>
     platform p' = platform p \<and> region p' = region p \<and>
     (\<forall>k. k \<noteq> ''wins'' \<longrightarrow> k \<noteq> ''losses'' \<longrightarrow> stats p' k = stats p k) \<and>
     (\<forall>k. (stats p' k = None) = (stats p k = None))"

text \<open>
  A step from \<open>ps\<close> to \<open>ps'\<close> that touches only the players in \<open>P\<close>, adds and removes no
  player, and keeps the profile of each.
\<close>

definition players_frame :: "string set \<Rightarrow> (string \<rightharpoonup> Player) \<Rightarrow> (string \<rightharpoonup> Player) \<Rightarrow> bool" where
  "players_frame P ps ps' \<longleftrightarrow>
     (\<forall>pid. pid \<notin> P \<longrightarrow> ps' pid = ps pid) \<and>
     (\<forall>pid. (ps pid = None \<longrightarrow> ps' pid = None) \<and>
            (\<forall>p. ps pid = Some p \<longrightarrow> (\<exists>p'. ps' pid = Some p' \<and> same_profile p p')))"



text \<open>
  The list \<open>ys\<close> has no element that \<open>xs\<close> lacks, and no repetition that \<open>xs\<close> lacks.
\<close>

definition shrinks :: "'a list \<Rightarrow> 'a list \<Rightarrow> bool" where
  "shrinks xs ys \<longleftrightarrow> set ys \<subseteq> set xs \<and> (distinct xs \<longrightarrow> distinct ys)"

text \<open>What one visit of the queue checker leaves of a queue with the given label.\<close>

definition drained :: "string \<Rightarrow> string list \<Rightarrow> string list" where
  "drained team_size_v q =
     (case team_size_int team_size_v of
        Inl e \<Rightarrow> q
      | Inr n \<Rightarrow> if n * 2 \<le> length q then drop (n * 2) q else q)"

section \<open>Scenarios\<close>

text \<open>
  Two players register in NA-East, both join the Soccar 1v1 queue, a tick forms their
  match, team Orange is reported as winner, and the same report arrives once more.
\<close>

definition initial_state :: state where
  "initial_state = \<lparr>players = Map.empty, queues = [], matches = Map.empty\<rparr>"

definition demo_view :: QueueDashboard where
  "demo_view = \<lparr>selected_mode = Some ''Soccar'', selected_map = Some ''Random'',
                 selected_team_size = Some ''1v1'', selected_region = None\<rparr>"

definition hoops_view :: QueueDashboard where
  "hoops_view = \<lparr>selected_mode = Some ''Hoops'', selected_map = Some ''Random'',
                  selected_team_size = Some ''2v2'', selected_region = None\<rparr>"

definition demo_env :: "nat \<Rightarrow> draws" where
  "demo_env k = \<lparr>id_draw = 7, map_draw = 1, room_draw = 234, password_draw = 56, clock = ''t0''\<rparr>"

definition demo_clock :: "string \<Rightarrow> nat \<Rightarrow> string" where
  "demo_clock t i = t"

definition demo_registered :: state where
  "demo_registered =
     region_select ''B'' ''Steam'' 2 ''NA-East'' (region_select ''A'' ''Epic'' 1 ''NA-East'' initial_state)"

definition demo_queued :: state where
  "demo_queued = fst (join_queue demo_view ''2'' (fst (join_queue demo_view ''1'' demo_registered)))"

definition demo_formed :: state where
  "demo_formed = fst (queue_checker demo_env demo_queued)"

definition demo_match :: Match where
  "demo_match =
     \<lparr>match_id = ''match_10007'', mode = ''Soccar'', map_name = ''Mannfield'',
      match_region = ''NA-East'', team_size = ''1v1'', match_players = [''1'', ''2''],
      status = ''Active'', created_at = ''t0'', room_name = ''OS1234'', room_password = ''156''\<rparr>"



definition demo_events :: "event list" where
  "demo_events =
     [Register ''A'' ''Epic'' 1 ''NA-East'', Register ''B'' ''Steam'' 2 ''NA-East'',
      Join demo_view ''1'', Join demo_view ''2'', Join hoops_view ''1'']"

text \<open>
  Two more players register and join the same queue before the first tick; two ticks
  follow with the same draws, then the result of the first match is reported.
\<close>

definition crowded_queued :: state where
  "crowded_queued =
     fst (join_queue demo_view ''4'' (fst (join_queue demo_view ''3''
       (region_select ''D'' ''Xbox'' 4 ''NA-East'' (region_select ''C'' ''Switch'' 3 ''NA-East''
          demo_queued)))))"

definition crowded_tick1 :: state where
  "crowded_tick1 = fst (queue_checker demo_env crowded_queued)"

definition crowded_tick2 :: state where
  "crowded_tick2 = fst (queue_checker demo_env crowded_tick1)"

definition crowded_reported :: state where
  "crowded_reported = fst (process_result demo_match ''Orange'' (demo_clock ''t1'') crowded_tick1)"

section \<open>The rank of a rating is monotone\<close>

lemma stop_pos_mono:
  "r1 \<le> r2 \<Longrightarrow>
   length (takeWhile (\<lambda>(t, n). \<not> t \<le> r2) xs) \<le> length (takeWhile (\<lambda>(t, n). \<not> t \<le> (r1::int)) xs)"
  by (induction xs) auto

lemma rank_scan_nth:
  "rank_scan xs r =
     (let i = length (takeWhile (\<lambda>(t, n). \<not> t \<le> r) xs)
      in if i < length xs then snd (xs ! i) else ''Bronze I'')"
  by (induction xs) (auto simp: Let_def)

lemma tier_index_rev_all:
  "list_all (\<lambda>i. tier_index (if i < length (rev RANKS) then snd (rev RANKS ! i) else ''Bronze I'') = 21 - i)
     [0..<23]"
  by code_simp

lemma tier_index_rev:
  "i \<le> 22 \<Longrightarrow>
   tier_index (if i < length (rev RANKS) then snd (rev RANKS ! i) else ''Bronze I'') = 21 - i"
  using tier_index_rev_all unfolding list_all_iff by auto

lemma stop_pos_le: "length (takeWhile P (rev RANKS)) \<le> 22"
  using length_takeWhile_le [of P "rev RANKS"] by (simp add: RANKS_def)

lemma tier_index_get_rank:
  "tier_index (get_rank r) = 21 - length (takeWhile (\<lambda>(t, n). \<not> t \<le> r) (rev RANKS))"
  unfolding get_rank_def rank_scan_nth Let_def
  by (rule tier_index_rev) (rule stop_pos_le)

lemma RANKS_thresholds_increasing: "sorted_wrt (<) (map fst RANKS)"
  by (simp add: RANKS_def)

lemma RANKS_names_distinct: "distinct (map snd RANKS)"
  by (simp add: RANKS_def)

lemma get_rank_below_all: "\<forall>(t, n) \<in> set RANKS. r < t \<Longrightarrow> get_rank r = snd (hd RANKS)"
  by (simp add: get_rank_def RANKS_def)

text \<open>
  Claim C8. \<open>get_rank\<close> is monotonically non-decreasing: for ratings \<open>r1 \<le> r2\<close> the rank of
  \<open>r1\<close> stands at or below the rank of \<open>r2\<close> in the rank table; and a rating below every
  threshold of the table gets the lowest tier of the table, not a failure.
\<close>

theorem get_rank_monotone_and_clamped:
  "(r1 \<le> r2 \<longrightarrow> tier_index (get_rank r1) \<le> tier_index (get_rank r2)) \<and>
   ((\<forall>(t, n) \<in> set RANKS. r < t) \<longrightarrow> get_rank r = snd (hd RANKS) \<and> tier_index (get_rank r) = 0)"
proof (intro conjI impI)
  assume "r1 \<le> r2"
  from stop_pos_mono [OF this, of "rev RANKS"]
  show "tier_index (get_rank r1) \<le> tier_index (get_rank r2)"
    by (simp add: tier_index_get_rank)
next
  assume low: "\<forall>(t, n) \<in> set RANKS. r < t"
  then show "get_rank r = snd (hd RANKS)"
    by (rule get_rank_below_all)
  from low show "tier_index (get_rank r) = 0"
    by (simp add: get_rank_below_all) (simp add: RANKS_def tier_index_def)
qed

theorem get_rank_monotone_and_clamped_witness:
  "(984::int) \<le> 1016 \<and> tier_index (get_rank 984) = 8 \<and> tier_index (get_rank 1016) = 9 \<and>
   tier_index (get_rank 984) \<le> tier_index (get_rank 1016) \<and>
   - 5 < fst (hd RANKS) \<and> get_rank (- 5) = ''Bronze I'' \<and> tier_index (get_rank (- 5)) = 0"
  using get_rank_monotone_and_clamped [of 984 1016 "-5"]
  by (simp add: RANKS_def get_rank_def tier_index_def)

section \<open>The rating change\<close>

lemma mmr_change_equal: "mmr_change_of won r (real_of_int r) = (if won then 16 else - 16)"
  by (simp add: mmr_change_of_def py_int_def)












section \<open>The reference scenario\<close>

lemma team_size_int_1v1: "team_size_int ''1v1'' = Inr 1"
  by (simp add: team_size_int_def)

lemma upd_win:
  assumes "ps a = Some pa" and "real_of_int (mmr pa) = opp" and "stats pa ''wins'' = Some w"
    and "mmr pa \<ge> 0"
  shows "update_player_mmr ps a True opp =
           (ps(a \<mapsto> pa\<lparr>mmr := mmr pa + 16, rank := get_rank (mmr pa + 16),
                          stats := (stats pa)(''wins'' \<mapsto> w + 1)\<rparr>), None)"
  using assms(1,3,4)
  by (simp add: update_player_mmr_def Let_def assms(2) [symmetric] mmr_change_equal)

lemma upd_loss:
  assumes "ps a = Some pa" and "real_of_int (mmr pa) = opp" and "stats pa ''losses'' = Some w"
  shows "update_player_mmr ps a False opp =
           (ps(a \<mapsto> pa\<lparr>mmr := max 0 (mmr pa - 16), rank := get_rank (max 0 (mmr pa - 16)),
                          stats := (stats pa)(''losses'' \<mapsto> w + 1)\<rparr>), None)"
  using assms(1,3)
  by (simp add: update_player_mmr_def Let_def assms(2) [symmetric] mmr_change_equal)

text \<open>
  Claim C2. Players \<open>a\<close> and \<open>b\<close> are registered with rating 1000 and are the two
  participants of a stored 1v1 match, \<open>a\<close> on the first team. After the report that the
  first team (Orange) won, the rating of \<open>a\<close> is 1016, the rating of \<open>b\<close> is 984 and the
  status of the match is Completed.
\<close>

theorem process_result_reference_scenario:
  assumes "a \<noteq> b"
    and "players st a = Some pa" "mmr pa = 1000" "stats pa ''wins'' = Some wa"
    and "players st b = Some pb" "mmr pb = 1000" "stats pb ''losses'' = Some lb"
    and "team_size m = ''1v1''" "match_players m = [a, b]"
    and "matches st (match_id m) = Some stored"
  shows "\<exists>st'. process_result m ''Orange'' now st = (st', None) \<and>
     map_option mmr (players st' a) = Some 1016 \<and>
     map_option mmr (players st' b) = Some 984 \<and>
     map_option status (matches st' (match_id m)) = Some ''Completed''"
  using assms
  by (simp add: process_result_def team_size_int_1v1 team_avg_def upd_win upd_loss)

lemma demo_registered_eq:
  "demo_registered = \<lparr>players = [''1'' \<mapsto> new_player ''A'' ''Epic'' 1 ''NA-East'', ''2'' \<mapsto> new_player ''B'' ''Steam'' 2 ''NA-East''], queues = [], matches = Map.empty\<rparr>"
  by (simp add: demo_registered_def region_select_def initial_state_def py_str_def digits.simps)

lemma demo_queued_eq:
  "demo_queued = demo_registered\<lparr>queues := [(''NA-East'', [(''Soccar'', [(''1v1'', [''1'', ''2''])])])]\<rparr>"
  by (simp add: demo_queued_def demo_registered_eq join_queue_def demo_view_def truthy_def
      new_player_def remove_from_queues_def team_size_int_def Let_def)

lemma demo_formed_eq:
  "demo_formed = demo_registered\<lparr>queues := [(''NA-East'', [(''Soccar'', [(''1v1'', [])])])],
      matches := [''match_10007'' \<mapsto> demo_match]\<rparr>"
  by (simp add: demo_formed_def demo_queued_eq queue_checker_def check_queue_def team_size_int_def
      demo_env_def randint_def choice_def MAPS_def py_str_def digits.simps demo_match_def Let_def demo_registered_eq form_match_def)

theorem process_result_reference_scenario_witness:
  "''1'' \<noteq> ''2'' \<and>
   map_option mmr (players demo_formed ''1'') = Some 1000 \<and>
   map_option mmr (players demo_formed ''2'') = Some 1000 \<and>
   matches demo_formed ''match_10007'' = Some demo_match \<and>
   (\<exists>st'. process_result demo_match ''Orange'' (demo_clock ''t1'') demo_formed = (st', None) \<and>
     map_option mmr (players st' ''1'') = Some 1016 \<and>
     map_option mmr (players st' ''2'') = Some 984 \<and>
     map_option status (matches st' (match_id demo_match)) = Some ''Completed'')"
  using process_result_reference_scenario [of "''1''" "''2''" demo_formed
      "new_player ''A'' ''Epic'' 1 ''NA-East''" 0 "new_player ''B'' ''Steam'' 2 ''NA-East''" 0
      demo_match demo_match "demo_clock ''t1''"]
  by (simp add: demo_formed_eq demo_registered_eq new_player_def demo_match_def)

section \<open>Registration and the rank table\<close>

text \<open>
  Claim C3. The stored rank of a player is the rank \<open>get_rank\<close> gives for the stored
  rating. Registration breaks it: \<open>region_select\<close> stores rating 1000 with the rank
  Gold I, and the table gives Platinum I for 1000.
\<close>

theorem region_select_rank_not_from_table:
  "players (region_select u p i r st) (py_str i) = Some (new_player u p i r) \<and>
   mmr (new_player u p i r) = 1000 \<and>
   rank (new_player u p i r) = ''Gold I'' \<and>
   get_rank (mmr (new_player u p i r)) = ''Platinum I'' \<and>
   rank (new_player u p i r) \<noteq> get_rank (mmr (new_player u p i r))"
  by (simp add: new_player_def get_rank_def RANKS_def region_select_def)

text \<open>The rating update does recompute the rank from the table.\<close>

lemma update_player_mmr_recomputes_rank:
  assumes "ps pid = Some p" and "update_player_mmr ps pid won opp = (ps', e)"
  shows "\<exists>p'. ps' pid = Some p' \<and> rank p' = get_rank (mmr p')"
  using assms
  by (auto simp: update_player_mmr_def Let_def split: option.splits)

section \<open>One visit of the queue checker to a queue\<close>

text \<open>Removing the first \<open>n\<close> elements one by one never raises and leaves the rest.\<close>

lemma remove_all_take: "n \<le> length q \<Longrightarrow> remove_all (take n q) q = (drop n q, None)"
proof (induction n arbitrary: q)
  case 0
  then show ?case by simp
next
  case (Suc n)
  then obtain x xs where q: "q = x # xs" by (cases q) auto
  with Suc show ?case by simp
qed

lemma maps_nonempty: "(case map_of MAPS mode_v of None \<Rightarrow> [''DFH Stadium''] | Some l \<Rightarrow> l) \<noteq> []"
  by (simp add: MAPS_def)

lemma form_match_ok:
  "\<exists>new_match. form_match d r m t sel = Inr new_match \<and>
     match_players new_match = sel \<and>
     match_id new_match = ''match_'' @ py_str (randint 10000 99999 (id_draw d)) \<and>
     status new_match = ''Active'' \<and> team_size new_match = t \<and> mode new_match = m \<and>
     match_region new_match = r"
  using maps_nonempty [of m] by (simp add: form_match_def choice_def)

lemma check_queue_enough:
  assumes "team_size_int t = Inr n" and "n * 2 \<le> length q"
  shows "\<exists>new_match. form_match (env k) r m t (take (n * 2) q) = Inr new_match \<and>
           check_queue env r m t q (ms, k) =
             ((drop (n * 2) q, ms(match_id new_match \<mapsto> new_match), Suc k), None)"
proof -
  from form_match_ok obtain new_match
    where "form_match (env k) r m t (take (n * 2) q) = Inr new_match" by blast
  with assms show ?thesis
    by (simp add: check_queue_def remove_all_take)
qed

lemma check_queue_short:
  assumes "team_size_int t = Inr n" and "\<not> n * 2 \<le> length q"
  shows "check_queue env r m t q s = ((q, s), None)"
  using assms by (cases s) (simp add: check_queue_def)

lemma check_queue_bad_label:
  assumes "team_size_int t = Inl e"
  shows "check_queue env r m t q s = ((q, s), Some e)"
  using assms by (cases s) (simp add: check_queue_def)

lemma check_queue_list:
  "fst (fst (check_queue env r m t q s)) =
     (case team_size_int t of Inl e \<Rightarrow> q | Inr n \<Rightarrow> if n * 2 \<le> length q then drop (n * 2) q else q)"
proof (cases "team_size_int t")
  case (Inl e)
  then show ?thesis by (simp add: check_queue_bad_label)
next
  case (Inr n)
  show ?thesis
  proof (cases "n * 2 \<le> length q")
    case True
    obtain ms k where s: "s = (ms, k)" by (cases s)
    from check_queue_enough [OF Inr True, of env k r m ms] Inr True show ?thesis
      by (auto simp: s)
  next
    case False
    with Inr show ?thesis by (simp add: check_queue_short)
  qed
qed



lemma crowded_queued_eq:
  "crowded_queued = \<lparr>players = [''1'' \<mapsto> new_player ''A'' ''Epic'' 1 ''NA-East'',
        ''2'' \<mapsto> new_player ''B'' ''Steam'' 2 ''NA-East'',
        ''3'' \<mapsto> new_player ''C'' ''Switch'' 3 ''NA-East'',
        ''4'' \<mapsto> new_player ''D'' ''Xbox'' 4 ''NA-East''],
      queues = [(''NA-East'', [(''Soccar'', [(''1v1'', [''1'', ''2'', ''3'', ''4''])])])],
      matches = Map.empty\<rparr>"
  by (simp add: crowded_queued_def demo_queued_eq demo_registered_eq region_select_def
      join_queue_def demo_view_def truthy_def Let_def remove_from_queues_def team_size_int_def
      py_str_def digits.simps)
     (simp add: new_player_def)

lemma crowded_tick1_eq:
  "crowded_tick1 = crowded_queued\<lparr>
      queues := [(''NA-East'', [(''Soccar'', [(''1v1'', [''3'', ''4''])])])],
      matches := [''match_10007'' \<mapsto> demo_match]\<rparr>"
  by (simp add: crowded_tick1_def crowded_queued_eq queue_checker_def check_queue_def
      team_size_int_def demo_env_def randint_def choice_def MAPS_def py_str_def digits.simps
      demo_match_def Let_def form_match_def)

lemma crowded_tick2_eq:
  "crowded_tick2 = crowded_queued\<lparr>
      queues := [(''NA-East'', [(''Soccar'', [(''1v1'', [])])])],
      matches := [''match_10007'' \<mapsto> demo_match\<lparr>match_players := [''3'', ''4'']\<rparr>]\<rparr>"
  by (simp add: crowded_tick2_def crowded_tick1_eq crowded_queued_eq queue_checker_def check_queue_def
      team_size_int_def demo_env_def randint_def choice_def MAPS_def py_str_def digits.simps
      demo_match_def Let_def form_match_def)

text \<open>
  Claim C5, as stated: after one visit of a tick to a queue, the queue holds fewer
  players than a match needs. It fails: four players wait in a 1v1 queue, the tick forms
  one match of two and leaves two players, which is the count a 1v1 match needs.
\<close>

theorem queue_checker_leaves_full_queue:
  "queue_at (queues crowded_queued) ''NA-East'' ''Soccar'' ''1v1'' = [''1'', ''2'', ''3'', ''4''] \<and>
   team_size_int ''1v1'' = Inr 1 \<and>
   queue_checker demo_env crowded_queued = (crowded_tick1, None) \<and>
   queue_at (queues crowded_tick1) ''NA-East'' ''Soccar'' ''1v1'' = [''3'', ''4''] \<and>
   \<not> length (queue_at (queues crowded_tick1) ''NA-East'' ''Soccar'' ''1v1'') < 1 * 2"
proof -
  have "snd (queue_checker demo_env crowded_queued) = None"
    by (simp add: crowded_queued_eq queue_checker_def check_queue_def
      team_size_int_def demo_env_def randint_def choice_def MAPS_def py_str_def digits.simps
      Let_def form_match_def)
  then have "queue_checker demo_env crowded_queued = (crowded_tick1, None)"
    by (simp add: crowded_tick1_def prod_eq_iff)
  then show ?thesis
    by (simp add: crowded_tick1_eq crowded_queued_eq queue_at_def team_size_int_def)
qed

text \<open>
  Claim C5, amended. One visit forms at most one match. For a queue whose label starts
  with the decimal digit \<open>n\<close>: when the queue holds at least \<open>2 * n\<close> players, exactly one
  match is stored, under its identifier, and the count of matches formed in the tick goes
  up by one; the players of the match are the first \<open>2 * n\<close> of the queue and the queue keeps
  the others. When the queue holds fewer, the queue, the matches and the count are left
  as they are. So for \<open>n > 0\<close> the queue is left below \<open>2 * n\<close> exactly when it held fewer
  than \<open>4 * n\<close> players. A label that does not start with a digit makes the visit raise
  with nothing changed.
\<close>

theorem check_queue_forms_one_match:
  "(team_size_int t = Inl e \<longrightarrow> check_queue env r m t q (ms, k) = ((q, ms, k), Some e)) \<and>
   (team_size_int t = Inr n \<and> \<not> n * 2 \<le> length q \<longrightarrow>
      fst (check_queue env r m t q (ms, k)) = (q, ms, k)) \<and>
   (team_size_int t = Inr n \<and> n * 2 \<le> length q \<longrightarrow>
      (\<exists>new_match. match_players new_match = take (n * 2) q \<and>
         fst (check_queue env r m t q (ms, k)) =
           (drop (n * 2) q, ms(match_id new_match \<mapsto> new_match), Suc k))) \<and>
   (team_size_int t = Inr n \<and> 0 < n \<longrightarrow>
      (length (fst (fst (check_queue env r m t q (ms, k)))) < n * 2) = (length q < 2 * (n * 2)))"
proof (intro conjI impI)
  assume "team_size_int t = Inl e"
  then show "check_queue env r m t q (ms, k) = ((q, ms, k), Some e)"
    by (simp add: check_queue_bad_label)
next
  assume "team_size_int t = Inr n \<and> \<not> n * 2 \<le> length q"
  then show "fst (check_queue env r m t q (ms, k)) = (q, ms, k)"
    by (simp add: check_queue_short)
next
  assume a: "team_size_int t = Inr n \<and> n * 2 \<le> length q"
  then have h: "team_size_int t = Inr n" "n * 2 \<le> length q" by simp_all
  from check_queue_enough [OF h, of env k r m ms] obtain new_match where
    f: "form_match (env k) r m t (take (n * 2) q) = Inr new_match"
    and c: "check_queue env r m t q (ms, k) =
             ((drop (n * 2) q, ms(match_id new_match \<mapsto> new_match), Suc k), None)"
    by blast
  from form_match_ok [of "env k" r m t "take (n * 2) q"] f
  have "match_players new_match = take (n * 2) q" by auto
  with c show "\<exists>new_match. match_players new_match = take (n * 2) q \<and>
         fst (check_queue env r m t q (ms, k)) =
           (drop (n * 2) q, ms(match_id new_match \<mapsto> new_match), Suc k)"
    by auto
next
  assume a: "team_size_int t = Inr n \<and> 0 < n"
  then have "fst (fst (check_queue env r m t q (ms, k))) = (if n * 2 \<le> length q then drop (n * 2) q else q)"
    by (simp add: check_queue_list)
  with a show "(length (fst (fst (check_queue env r m t q (ms, k)))) < n * 2) = (length q < 2 * (n * 2))"
    by auto
qed

theorem check_queue_forms_one_match_witness:
  "team_size_int ''1v1'' = Inr 1 \<and> 1 * 2 \<le> length [''1'', ''2'', ''3'', ''4''] \<and>
   (\<exists>new_match. match_players new_match = [''1'', ''2''] \<and>
      fst (check_queue demo_env ''NA-East'' ''Soccar'' ''1v1'' [''1'', ''2'', ''3'', ''4''] (Map.empty, 0)) =
        ([''3'', ''4''], [match_id new_match \<mapsto> new_match], 1)) \<and>
   \<not> length [''1'', ''2'', ''3'', ''4''] < 2 * (1 * 2) \<and>
   \<not> length (fst (fst (check_queue demo_env ''NA-East'' ''Soccar'' ''1v1'' [''1'', ''2'', ''3'', ''4'']
        (Map.empty, 0)))) < 1 * 2"
proof -
  have h: "team_size_int ''1v1'' = Inr 1" by (simp add: team_size_int_def)
  from h check_queue_forms_one_match [of "''1v1''" IndexError demo_env "''NA-East''" "''Soccar''"
      "[''1'', ''2'', ''3'', ''4'']" Map.empty 0 1]
  show ?thesis by simp
qed

section \<open>Match identifiers\<close>

text \<open>The decimal rendering of integers is injective.\<close>

lemma digit_table_inj:
  assumes "a < 10" and "b < 10" and "''0123456789'' ! a = ''0123456789'' ! b"
  shows "a = b"
proof -
  have "distinct ''0123456789''" by simp
  moreover have "a < length ''0123456789''" "b < length ''0123456789''" using assms by simp_all
  ultimately show ?thesis using assms(3) by (simp only: nth_eq_iff_index_eq)
qed

lemma digits_nonempty: "digits n \<noteq> []"
  by (subst digits.simps) simp

lemma digits_inj: "digits n = digits k \<Longrightarrow> n = k"
proof (induction n arbitrary: k rule: digits.induct)
  case (1 n)
  show ?case
  proof (cases "n < 10")
    case small: True
    show ?thesis
    proof (cases "k < 10")
      case True
      with small "1.prems" have "''0123456789'' ! n = ''0123456789'' ! k"
        by (simp add: digits.simps [of n] digits.simps [of k])
      with small True show ?thesis by (rule digit_table_inj)
    next
      case False
      with small "1.prems" digits_nonempty [of "k div 10"] show ?thesis
        by (simp add: digits.simps [of n] digits.simps [of k])
    qed
  next
    case big: False
    show ?thesis
    proof (cases "k < 10")
      case True
      with big "1.prems" digits_nonempty [of "n div 10"] show ?thesis
        by (simp add: digits.simps [of n] digits.simps [of k])
    next
      case False
      with big "1.prems" have eq: "digits (n div 10) = digits (k div 10)"
        and last: "''0123456789'' ! (n mod 10) = ''0123456789'' ! (k mod 10)"
        by (simp_all add: digits.simps [of n] digits.simps [of k])
      from "1.IH" [OF big eq] have d: "n div 10 = k div 10" .
      have "n mod 10 < 10" "k mod 10 < 10" by simp_all
      from digit_table_inj [OF this last] have "n mod 10 = k mod 10" .
      with d show ?thesis by (metis div_mult_mod_eq)
    qed
  qed
qed

lemma minus_not_digit: "CHR ''-'' \<notin> set (digits n)"
proof (induction n rule: digits.induct)
  case (1 n)
  have tbl: "CHR ''-'' \<noteq> ''0123456789'' ! j" if "j < 10" for j
  proof -
    from that have "j < length ''0123456789''" by simp
    then have "''0123456789'' ! j \<in> set ''0123456789''" by (rule nth_mem)
    then show ?thesis by auto
  qed
  show ?case
  proof (cases "n < 10")
    case True
    with tbl [of n] show ?thesis by (simp add: digits.simps [of n])
  next
    case False
    with "1.IH" tbl [of "n mod 10"] show ?thesis by (simp add: digits.simps [of n])
  qed
qed

lemma py_str_inj: "py_str i = py_str j \<Longrightarrow> i = j"
proof -
  assume eq: "py_str i = py_str j"
  have hd_nonneg: "hd (digits n) \<noteq> CHR ''-''" for n
    using minus_not_digit [of n] digits_nonempty [of n] by (cases "digits n") auto
  show ?thesis
  proof (cases "i < 0")
    case ineg: True
    show ?thesis
    proof (cases "j < 0")
      case True
      with ineg eq have "digits (nat (- i)) = digits (nat (- j))" by (simp add: py_str_def)
      from digits_inj [OF this] ineg True show ?thesis by simp
    next
      case False
      with ineg eq have "CHR ''-'' # digits (nat (- i)) = digits (nat j)" by (simp add: py_str_def)
      then have "hd (digits (nat j)) = CHR ''-''" by (metis list.sel(1))
      with hd_nonneg show ?thesis by blast
    qed
  next
    case ipos: False
    show ?thesis
    proof (cases "j < 0")
      case True
      with ipos eq have "digits (nat i) = CHR ''-'' # digits (nat (- j))" by (simp add: py_str_def)
      then have "hd (digits (nat i)) = CHR ''-''" by (metis list.sel(1))
      with hd_nonneg show ?thesis by blast
    next
      case False
      with ipos eq have "digits (nat i) = digits (nat j)" by (simp add: py_str_def)
      from digits_inj [OF this] ipos False show ?thesis by simp
    qed
  qed
qed

lemma match_id_eq_iff:
  assumes "form_match d r m t sel = Inr x" and "form_match d' r' m' t' sel' = Inr x'"
  shows "(match_id x = match_id x') = (id_draw d mod 90000 = id_draw d' mod 90000)"
proof -
  from form_match_ok [of d r m t sel] assms(1)
  have x: "match_id x = ''match_'' @ py_str (randint 10000 99999 (id_draw d))" by auto
  from form_match_ok [of d' r' m' t' sel'] assms(2)
  have x': "match_id x' = ''match_'' @ py_str (randint 10000 99999 (id_draw d'))" by auto
  have "(match_id x = match_id x') =
        (py_str (randint 10000 99999 (id_draw d)) = py_str (randint 10000 99999 (id_draw d')))"
    by (simp add: x x')
  also have "\<dots> = (randint 10000 99999 (id_draw d) = randint 10000 99999 (id_draw d'))"
    by (auto dest: py_str_inj)
  also have "\<dots> = (int (id_draw d) mod 90000 = int (id_draw d') mod 90000)"
    by (simp add: randint_def)
  also have "\<dots> = (int (id_draw d mod 90000) = int (id_draw d' mod 90000))"
    by (simp add: zmod_int)
  also have "\<dots> = (id_draw d mod 90000 = id_draw d' mod 90000)"
    by (simp only: of_nat_eq_iff)
  finally show ?thesis .
qed

text \<open>
  Claim C9, as stated: two matches that were formed have different identifiers, so a
  new match never replaces a stored one. It fails: two ticks that draw the same number
  form two matches under one identifier, and the second replaces the first.
\<close>

theorem match_id_reused:
  "map_option match_players (matches crowded_tick1 ''match_10007'') = Some [''1'', ''2''] \<and>
   map_option match_players (matches crowded_tick2 ''match_10007'') = Some [''3'', ''4''] \<and>
   dom (matches crowded_tick2) = {''match_10007''}"
  by (simp add: crowded_tick1_eq crowded_tick2_eq demo_match_def)

text \<open>
  Claim C9, amended. The identifier of a formed match is \<^verbatim>\<open>match_\<close> followed by the
  decimal digits of 10000 plus the raw draw modulo 90000, and the match is stored under
  it without a look at the stored matches. Two formed matches have the same identifier
  exactly when their draws agree modulo 90000.
\<close>

theorem match_ids_equal_iff_draws_equal:
  assumes "team_size_int t = Inr n" and "n * 2 \<le> length q"
    and "team_size_int t' = Inr n'" and "n' * 2 \<le> length q'"
  shows "\<exists>x x'.
           check_queue env r m t q (ms, k) =
             ((drop (n * 2) q, ms(match_id x \<mapsto> x), Suc k), None) \<and>
           check_queue env' r' m' t' q' (ms', k') =
             ((drop (n' * 2) q', ms'(match_id x' \<mapsto> x'), Suc k'), None) \<and>
           match_id x = ''match_'' @ py_str (10000 + int (id_draw (env k) mod 90000)) \<and>
           (match_id x = match_id x') = (id_draw (env k) mod 90000 = id_draw (env' k') mod 90000)"
proof -
  from check_queue_enough [OF assms(1,2), of env k r m ms] obtain x where
    x: "form_match (env k) r m t (take (n * 2) q) = Inr x"
      "check_queue env r m t q (ms, k) = ((drop (n * 2) q, ms(match_id x \<mapsto> x), Suc k), None)"
    by blast
  from check_queue_enough [OF assms(3,4), of env' k' r' m' ms'] obtain x' where
    x': "form_match (env' k') r' m' t' (take (n' * 2) q') = Inr x'"
      "check_queue env' r' m' t' q' (ms', k') = ((drop (n' * 2) q', ms'(match_id x' \<mapsto> x'), Suc k'), None)"
    by blast
  from form_match_ok [of "env k" r m t "take (n * 2) q"] x(1)
  have "match_id x = ''match_'' @ py_str (10000 + int (id_draw (env k) mod 90000))"
    by (auto simp: randint_def zmod_int)
  with x(2) x'(2) match_id_eq_iff [OF x(1) x'(1)] show ?thesis by blast
qed

theorem match_ids_equal_iff_draws_equal_witness:
  "team_size_int ''1v1'' = Inr 1 \<and> 1 * 2 \<le> length [''1'', ''2''] \<and> 1 * 2 \<le> length [''3'', ''4''] \<and>
   (\<exists>x x'. check_queue demo_env ''NA-East'' ''Soccar'' ''1v1'' [''1'', ''2''] (Map.empty, 0) =
              (([], [match_id x \<mapsto> x], Suc 0), None) \<and>
            check_queue demo_env ''NA-East'' ''Soccar'' ''1v1'' [''3'', ''4''] ([''match_10007'' \<mapsto> demo_match], 0) =
              (([], [''match_10007'' \<mapsto> demo_match](match_id x' \<mapsto> x'), Suc 0), None) \<and>
            match_id x = ''match_10007'' \<and> match_id x = match_id x')"
proof -
  have h: "team_size_int ''1v1'' = Inr 1" "1 * 2 \<le> length [''1'', ''2'']" "1 * 2 \<le> length [''3'', ''4'']"
    by (simp_all add: team_size_int_def)
  have i: "''match_'' @ py_str (10000 + int (id_draw (demo_env 0) mod 90000)) = ''match_10007''"
    by (simp add: demo_env_def py_str_def digits.simps)
  from match_ids_equal_iff_draws_equal [OF h(1) h(2) h(1) h(3), where env = demo_env and k = 0
      and r = "''NA-East''" and m = "''Soccar''" and ms = Map.empty and env' = demo_env and k' = 0
      and r' = "''NA-East''" and m' = "''Soccar''" and ms' = "[''match_10007'' \<mapsto> demo_match]"]
  obtain x x' where
    a: "check_queue demo_env ''NA-East'' ''Soccar'' ''1v1'' [''1'', ''2''] (Map.empty, 0) =
         ((drop (1 * 2) [''1'', ''2''], [match_id x \<mapsto> x], Suc 0), None)"
    and b: "check_queue demo_env ''NA-East'' ''Soccar'' ''1v1'' [''3'', ''4''] ([''match_10007'' \<mapsto> demo_match], 0) =
         ((drop (1 * 2) [''3'', ''4''], [''match_10007'' \<mapsto> demo_match](match_id x' \<mapsto> x'), Suc 0), None)"
    and c: "match_id x = ''match_'' @ py_str (10000 + int (id_draw (demo_env 0) mod 90000))"
    and d: "(match_id x = match_id x') = (id_draw (demo_env 0) mod 90000 = id_draw (demo_env 0) mod 90000)"
    by blast
  from a have a': "check_queue demo_env ''NA-East'' ''Soccar'' ''1v1'' [''1'', ''2''] (Map.empty, 0) =
         (([], [match_id x \<mapsto> x], Suc 0), None)" by simp
  from b have b': "check_queue demo_env ''NA-East'' ''Soccar'' ''1v1'' [''3'', ''4''] ([''match_10007'' \<mapsto> demo_match], 0) =
         (([], [''match_10007'' \<mapsto> demo_match](match_id x' \<mapsto> x'), Suc 0), None)" by simp
  from c i have c': "match_id x = ''match_10007''" by simp
  from d have d': "match_id x = match_id x'" by simp
  from h a' b' c' d' show ?thesis by blast
qed

section \<open>Queues: each player waits in at most one queue\<close>

lemma dict_values_map_values: "dict_values (map_values f d) = map f (dict_values d)"
  by (induction f d rule: map_values.induct) (simp_all add: dict_values_def)

lemma waiting_lists_map:
  "waiting_lists (map_values (map_values (map_values g)) qs) = map g (waiting_lists qs)"
  by (simp add: waiting_lists_def dict_values_map_values map_concat comp_def)

lemma waiting_lists_remove:
  "waiting_lists (remove_from_queues u qs) =
     map (\<lambda>q. if u \<in> set q then remove1 u q else q) (waiting_lists qs)"
  unfolding remove_from_queues_def by (rule waiting_lists_map)

lemma remove_if_present_filter:
  assumes "distinct q"
  shows "(if u \<in> set q then remove1 u q else q) = filter (\<lambda>x. x \<noteq> u) q"
proof (cases "u \<in> set q")
  case True
  with assms show ?thesis
    by (simp add: distinct_remove1_removeAll removeAll_filter_not_eq) (rule filter_cong, auto)
next
  case False
  then have "filter (\<lambda>x. x \<noteq> u) q = q"
    by (induction q) auto
  with False show ?thesis by simp
qed

lemma concat_remove_filter:
  "distinct (concat ls) \<Longrightarrow>
   concat (map (\<lambda>q. if u \<in> set q then remove1 u q else q) ls) = filter (\<lambda>x. x \<noteq> u) (concat ls)"
proof (induction ls)
  case Nil
  then show ?case by simp
next
  case (Cons l ls)
  then have "distinct l" and "distinct (concat ls)" by simp_all
  with Cons.IH remove_if_present_filter [of l u] show ?case by simp
qed

lemma all_waiting_remove:
  "distinct (all_waiting qs) \<Longrightarrow>
   all_waiting (remove_from_queues u qs) = filter (\<lambda>x. x \<noteq> u) (all_waiting qs)"
  by (simp only: all_waiting_def waiting_lists_remove concat_remove_filter)

lemma dict_values_Nil: "dict_values [] = []"
  by (simp add: dict_values_def)

lemma concat_concat_map: "concat (concat (map f xs)) = concat (map (\<lambda>x. concat (f x)) xs)"
  by (induction xs) simp_all

lemma dd_modify_mset:
  assumes "\<And>v. mset (flat (f v)) = mset (flat v) + {#u#}" and "flat d = []"
  shows "mset (concat (map flat (dict_values (dd_modify k d f kvs)))) =
         mset (concat (map flat (dict_values kvs))) + {#u#}"
  using assms by (induction k d f kvs rule: dd_modify.induct) (simp_all add: dict_values_def)

lemma all_waiting_append:
  "mset (all_waiting (dd_modify r [] (dd_modify m [] (dd_modify t [] (\<lambda>q. q @ [u]))) qs)) =
   mset (all_waiting qs) + {#u#}"
proof -
  have l3: "mset (concat (dict_values (dd_modify t [] (\<lambda>q. q @ [u]) sizes))) =
        mset (concat (dict_values sizes)) + {#u#}" for sizes
    using dd_modify_mset [where flat = "\<lambda>q. q" and f = "\<lambda>q. q @ [u]" and u = u and d = "[]" and k = t and kvs = sizes]
    by simp
  have l2: "mset (concat (map (\<lambda>sizes. concat (dict_values sizes))
              (dict_values (dd_modify m [] (dd_modify t [] (\<lambda>q. q @ [u])) modes)))) =
        mset (concat (map (\<lambda>sizes. concat (dict_values sizes)) (dict_values modes))) + {#u#}" for modes
    by (rule dd_modify_mset) (simp_all add: l3 dict_values_Nil)
  have l1: "mset (concat (map (\<lambda>modes. concat (map (\<lambda>sizes. concat (dict_values sizes)) (dict_values modes)))
              (dict_values (dd_modify r [] (dd_modify m [] (dd_modify t [] (\<lambda>q. q @ [u]))) qs)))) =
        mset (concat (map (\<lambda>modes. concat (map (\<lambda>sizes. concat (dict_values sizes)) (dict_values modes))) (dict_values qs))) + {#u#}"
    by (rule dd_modify_mset) (simp_all add: l2 dict_values_Nil)
  have flat: "all_waiting qs = concat (map (\<lambda>modes. concat (map (\<lambda>sizes. concat (dict_values sizes)) (dict_values modes))) (dict_values qs))" for qs
    by (simp add: all_waiting_def waiting_lists_def concat_concat_map)
  show ?thesis unfolding flat by (rule l1)
qed

lemma map_of_flat_subset:
  "map_of kvs k = Some v \<Longrightarrow> set (flat v) \<subseteq> set (concat (map flat (dict_values kvs)))"
  by (induction kvs) (auto simp: dict_values_def split: if_splits)

lemma map_of_flat_distinct:
  "map_of kvs k = Some v \<Longrightarrow> distinct (concat (map flat (dict_values kvs))) \<Longrightarrow> distinct (flat v)"
  by (induction kvs) (auto simp: dict_values_def split: if_splits)

lemma map_of_flat_disjoint:
  assumes "distinct (concat (map flat (dict_values kvs)))"
    and "map_of kvs k = Some v" and "map_of kvs k' = Some v'" and "k \<noteq> k'"
  shows "set (flat v) \<inter> set (flat v') = {}"
  using assms
proof (induction kvs)
  case Nil
  then show ?case by simp
next
  case (Cons a kvs)
  obtain k0 v0 where a: "a = (k0, v0)" by (cases a)
  from Cons.prems(1) have d0: "set (flat v0) \<inter> set (concat (map flat (dict_values kvs))) = {}"
    and dr: "distinct (concat (map flat (dict_values kvs)))"
    by (simp_all add: a dict_values_def)
  show ?case
  proof (cases "k = k0")
    case True
    with Cons.prems a have "v = v0" and "map_of kvs k' = Some v'" by auto
    with d0 map_of_flat_subset [of kvs k' v' flat] show ?thesis by blast
  next
    case False
    note kk = this
    show ?thesis
    proof (cases "k' = k0")
      case True
      with Cons.prems a kk have "v' = v0" and "map_of kvs k = Some v" by auto
      with d0 map_of_flat_subset [of kvs k v flat] show ?thesis by blast
    next
      case False
      with kk Cons.prems a have "map_of kvs k = Some v" and "map_of kvs k' = Some v'" by auto
      with Cons.IH dr Cons.prems(4) show ?thesis by blast
    qed
  qed
qed

lemma all_waiting_flat: "all_waiting qs = concat (map flat_modes (dict_values qs))"
  by (simp add: all_waiting_def waiting_lists_def concat_concat_map flat_modes_def [abs_def] flat_sizes_def [abs_def])

lemma queue_at_disjoint:
  assumes dist: "distinct (all_waiting qs)" and ne: "(r, m, t) \<noteq> (r', m', t')"
  shows "set (queue_at qs r m t) \<inter> set (queue_at qs r' m' t') = {}"
proof (cases "queue_at qs r m t = [] \<or> queue_at qs r' m' t' = []")
  case True
  then show ?thesis by auto
next
  case False
  then obtain modes sizes q modes' sizes' q' where
    l: "map_of qs r = Some modes" "map_of modes m = Some sizes" "map_of sizes t = Some q"
       "queue_at qs r m t = q"
    and l': "map_of qs r' = Some modes'" "map_of modes' m' = Some sizes'" "map_of sizes' t' = Some q'"
       "queue_at qs r' m' t' = q'"
    by (auto simp: queue_at_def split: option.splits)
  from dist have d1: "distinct (concat (map flat_modes (dict_values qs)))"
    by (simp add: all_waiting_flat)
  have s1: "set q \<subseteq> set (flat_sizes sizes)"
    using map_of_flat_subset [OF l(3), of "\<lambda>q. q"] by (simp add: flat_sizes_def)
  have s2: "set (flat_sizes sizes) \<subseteq> set (flat_modes modes)"
    using map_of_flat_subset [OF l(2), of flat_sizes] by (simp add: flat_modes_def)
  have s1': "set q' \<subseteq> set (flat_sizes sizes')"
    using map_of_flat_subset [OF l'(3), of "\<lambda>q. q"] by (simp add: flat_sizes_def)
  have s2': "set (flat_sizes sizes') \<subseteq> set (flat_modes modes')"
    using map_of_flat_subset [OF l'(2), of flat_sizes] by (simp add: flat_modes_def)
  have "set q \<inter> set q' = {}"
  proof (cases "r = r'")
    case False
    from map_of_flat_disjoint [OF d1 l(1) l'(1) False]
    have "set (flat_modes modes) \<inter> set (flat_modes modes') = {}" .
    with s1 s2 s1' s2' show ?thesis by blast
  next
    case True
    with l l' have mm: "modes' = modes" by simp
    from map_of_flat_distinct [OF l(1) d1]
    have d2: "distinct (concat (map flat_sizes (dict_values modes)))"
      by (simp add: flat_modes_def)
    show ?thesis
    proof (cases "m = m'")
      case False
      from map_of_flat_disjoint [OF d2 l(2) l'(2) [unfolded mm] False]
      have "set (flat_sizes sizes) \<inter> set (flat_sizes sizes') = {}" .
      with s1 s1' show ?thesis by blast
    next
      case True
      with l l' mm have ss: "sizes' = sizes" by simp
      from True \<open>r = r'\<close> ne have tt: "t \<noteq> t'" by simp
      from map_of_flat_distinct [OF l(2) d2]
      have d3: "distinct (concat (map (\<lambda>q. q) (dict_values sizes)))"
        by (simp add: flat_sizes_def)
      from map_of_flat_disjoint [OF d3 l(3) l'(3) [unfolded ss] tt]
      show ?thesis .
    qed
  qed
  with l l' show ?thesis by simp
qed

lemma queue_at_distinct:
  assumes dist: "distinct (all_waiting qs)"
  shows "distinct (queue_at qs r m t)"
proof (cases "queue_at qs r m t = []")
  case True
  then show ?thesis by simp
next
  case False
  then obtain modes sizes q where
    l: "map_of qs r = Some modes" "map_of modes m = Some sizes" "map_of sizes t = Some q"
       "queue_at qs r m t = q"
    by (auto simp: queue_at_def split: option.splits)
  from dist have d1: "distinct (concat (map flat_modes (dict_values qs)))"
    by (simp add: all_waiting_flat)
  from map_of_flat_distinct [OF l(1) d1]
  have d2: "distinct (concat (map flat_sizes (dict_values modes)))"
    by (simp add: flat_modes_def)
  from map_of_flat_distinct [OF l(2) d2]
  have d3: "distinct (concat (map (\<lambda>q. q) (dict_values sizes)))"
    by (simp add: flat_sizes_def)
  from map_of_flat_distinct [OF l(3) d3] l(4) show ?thesis by simp
qed

lemma map_of_map_values: "map_of (map_values f d) k = map_option f (map_of d k)"
  by (induction f d rule: map_values.induct) simp_all

lemma map_of_dd_modify:
  "map_of (dd_modify k d f kvs) k' =
     (if k' = k then Some (f (case map_of kvs k of None \<Rightarrow> d | Some v \<Rightarrow> v)) else map_of kvs k')"
  by (induction k d f kvs rule: dd_modify.induct) auto

lemma queue_at_remove:
  "queue_at (remove_from_queues u qs) r m t =
     (let q = queue_at qs r m t in if u \<in> set q then remove1 u q else q)"
  by (simp add: queue_at_def remove_from_queues_def map_of_map_values split: option.splits)

lemma queue_at_append:
  "queue_at (dd_modify r [] (dd_modify m [] (dd_modify t [] (\<lambda>q. q @ [u]))) qs) r' m' t' =
     (if (r', m', t') = (r, m, t) then queue_at qs r m t @ [u] else queue_at qs r' m' t')"
  by (auto simp: queue_at_def map_of_dd_modify split: option.splits)

lemma remove_from_queues_distinct:
  "distinct (all_waiting qs) \<Longrightarrow> distinct (all_waiting (remove_from_queues u qs))"
  by (simp add: all_waiting_remove)

lemma append_after_remove_distinct:
  assumes "distinct (all_waiting qs)"
  shows "distinct (all_waiting (dd_modify r [] (dd_modify m [] (dd_modify t [] (\<lambda>q. q @ [u])))
           (remove_from_queues u qs)))"
proof -
  let ?rest = "filter (\<lambda>x. x \<noteq> u) (all_waiting qs)"
  have "mset (all_waiting (dd_modify r [] (dd_modify m [] (dd_modify t [] (\<lambda>q. q @ [u])))
           (remove_from_queues u qs))) = mset (?rest @ [u])"
    by (simp add: all_waiting_append all_waiting_remove [OF assms])
  moreover from assms have "distinct (?rest @ [u])" by simp
  ultimately show ?thesis by (metis mset_eq_imp_distinct_iff)
qed

lemma join_queue_queues:
  "queues (fst (join_queue self u st)) =
     (case players st u of
        None \<Rightarrow> queues st
      | Some player \<Rightarrow>
          if truthy (selected_mode self) \<and> truthy (selected_map self) \<and> truthy (selected_team_size self)
          then dd_modify (region player) [] (dd_modify (the (selected_mode self)) []
                 (dd_modify (the (selected_team_size self)) [] (\<lambda>q. q @ [u])))
                 (remove_from_queues u (queues st))
          else queues st)"
  by (simp add: join_queue_def Let_def split: option.splits sum.splits)

lemma shrinks_refl: "shrinks xs xs"
  by (simp add: shrinks_def)

lemma shrinks_append: "shrinks xs ys \<Longrightarrow> shrinks xs' ys' \<Longrightarrow> shrinks (xs @ xs') (ys @ ys')"
  by (auto simp: shrinks_def)

lemma shrinks_drop: "shrinks q (drop n q)"
  by (auto simp: shrinks_def dest: in_set_dropD)

lemma for_items_shrinks:
  assumes "\<And>k v s. shrinks (flat v) (flat (fst (fst (body k v s))))"
  shows "shrinks (concat (map flat (dict_values kvs)))
           (concat (map flat (dict_values (fst (fst (for_items body kvs s))))))"
proof (induction kvs arbitrary: s)
  case Nil
  then show ?case by (simp add: shrinks_refl)
next
  case (Cons a kvs)
  obtain k v where a: "a = (k, v)" by (cases a)
  obtain v' s' e where b: "body k v s = ((v', s'), e)" by (metis surj_pair)
  from assms [of v k s] b have h: "shrinks (flat v) (flat v')" by simp
  show ?case
  proof (cases e)
    case (Some err)
    with a b have "fst (fst (for_items body (a # kvs) s)) = (k, v') # kvs" by simp
    with h a shrinks_append [OF h shrinks_refl] show ?thesis by (simp add: dict_values_def)
  next
    case None
    obtain rest' s'' e' where r: "for_items body kvs s' = ((rest', s''), e')" by (metis surj_pair)
    with None a b have "fst (fst (for_items body (a # kvs) s)) = (k, v') # rest'" by simp
    moreover from Cons.IH [of s'] r
    have "shrinks (concat (map flat (dict_values kvs))) (concat (map flat (dict_values rest')))" by simp
    ultimately show ?thesis using a shrinks_append [OF h] by (simp add: dict_values_def)
  qed
qed

lemma check_queue_shrinks: "shrinks q (fst (fst (check_queue env r m t q s)))"
  by (simp add: check_queue_list shrinks_refl shrinks_drop split: sum.splits)

lemma queue_checker_shrinks:
  "shrinks (all_waiting (queues st)) (all_waiting (queues (fst (queue_checker env st))))"
proof -
  have l3: "shrinks (flat_sizes sizes)
      (flat_sizes (fst (fst (for_items (check_queue env r m) sizes s))))" for r m sizes s
    unfolding flat_sizes_def
    using for_items_shrinks [where flat = "\<lambda>q. q" and body = "check_queue env r m" and kvs = sizes and s = s]
      check_queue_shrinks
    by simp
  have l2: "shrinks (flat_modes modes)
      (flat_modes (fst (fst (for_items (\<lambda>m. for_items (check_queue env r m)) modes s))))" for r modes s
    unfolding flat_modes_def
    by (rule for_items_shrinks) (rule l3)
  have l1: "shrinks (all_waiting qs)
      (all_waiting (fst (fst (for_items (\<lambda>r. for_items (\<lambda>m. for_items (check_queue env r m))) qs s))))" for qs s
    unfolding all_waiting_flat
    by (rule for_items_shrinks) (rule l2)
  have "queues (fst (queue_checker env st)) =
      fst (fst (for_items (\<lambda>r. for_items (\<lambda>m. for_items (check_queue env r m))) (queues st) (matches st, 0)))"
    by (simp add: queue_checker_def split: prod.splits)
  with l1 [of "queues st" "(matches st, 0)"] show ?thesis by simp
qed

lemma process_result_queues: "queues (fst (process_result m w now st)) = queues st"
  by (simp add: process_result_def Let_def split: sum.splits option.splits prod.splits)

lemma apply_event_distinct:
  assumes "distinct (all_waiting (queues st))"
  shows "distinct (all_waiting (queues (apply_event ev st)))"
proof (cases ev)
  case (Register a b c d)
  with assms show ?thesis by (simp add: region_select_def)
next
  case (Join self u)
  with assms show ?thesis
    by (simp add: join_queue_queues append_after_remove_distinct split: option.splits)
next
  case (Leave u)
  with assms show ?thesis by (simp add: leave_queue_def remove_from_queues_distinct)
next
  case (Tick env)
  with assms queue_checker_shrinks [of st env] show ?thesis by (simp add: shrinks_def)
next
  case (Report m w now)
  with assms show ?thesis by (simp add: process_result_queues)
qed

lemma fold_apply_event_distinct:
  "distinct (all_waiting (queues st)) \<Longrightarrow> distinct (all_waiting (queues (fold apply_event evs st)))"
  by (induction evs arbitrary: st) (simp_all add: apply_event_distinct)

lemma queue_at_join:
  assumes "distinct (all_waiting (queues st))" and "players st u = Some player"
    and "truthy (selected_mode self)" "truthy (selected_map self)" "truthy (selected_team_size self)"
  shows "queue_at (queues (fst (join_queue self u st))) r m t =
           (if (r, m, t) = (region player, the (selected_mode self), the (selected_team_size self))
            then filter (\<lambda>x. x \<noteq> u) (queue_at (queues st) r m t) @ [u]
            else filter (\<lambda>x. x \<noteq> u) (queue_at (queues st) r m t))"
proof -
  have "(let q = queue_at (queues st) r' m' t' in if u \<in> set q then remove1 u q else q) =
      filter (\<lambda>x. x \<noteq> u) (queue_at (queues st) r' m' t')" for r' m' t'
    using remove_if_present_filter [OF queue_at_distinct [OF assms(1)], of u r' m' t']
    by (simp add: Let_def)
  with assms(2-) show ?thesis
    by (simp add: join_queue_queues queue_at_append queue_at_remove)
qed

text \<open>
  Claim C4. Start with empty queues and run any sequence of events: joins and leaves,
  and also registrations, runs of the queue checker and reports. Then no player id
  occurs twice among all waiting lists, so the lists of two different
  (region, mode, team size) keys share no player. A join that passes the two checks
  removes the player from every queue and appends the player at the tail of the queue
  of the player's region and the selected mode and team size.
\<close>

theorem one_queue_per_player:
  assumes "queues st = []"
  shows "distinct (all_waiting (queues (fold apply_event evs st))) \<and>
         ((r, m, t) \<noteq> (r', m', t') \<longrightarrow>
            set (queue_at (queues (fold apply_event evs st)) r m t) \<inter>
            set (queue_at (queues (fold apply_event evs st)) r' m' t') = {}) \<and>
         (players (fold apply_event evs st) u = Some player \<and> truthy (selected_mode self) \<and>
          truthy (selected_map self) \<and> truthy (selected_team_size self) \<longrightarrow>
            queue_at (queues (apply_event (Join self u) (fold apply_event evs st))) r m t =
              (if (r, m, t) = (region player, the (selected_mode self), the (selected_team_size self))
               then filter (\<lambda>x. x \<noteq> u) (queue_at (queues (fold apply_event evs st)) r m t) @ [u]
               else filter (\<lambda>x. x \<noteq> u) (queue_at (queues (fold apply_event evs st)) r m t)))"
proof -
  from assms have "distinct (all_waiting (queues st))"
    by (simp add: all_waiting_def waiting_lists_def dict_values_def)
  then have d: "distinct (all_waiting (queues (fold apply_event evs st)))"
    by (rule fold_apply_event_distinct)
  from d show ?thesis
    by (auto simp: queue_at_join dest: queue_at_disjoint [where r = r and m = m and t = t and r' = r' and m' = m' and t' = t'])
qed

lemma demo_events_state:
  "fold apply_event demo_events initial_state =
     demo_registered\<lparr>queues :=
       [(''NA-East'', [(''Soccar'', [(''1v1'', [''2''])]), (''Hoops'', [(''2v2'', [''1''])])])]\<rparr>"
  by (simp add: demo_events_def demo_registered_eq initial_state_def region_select_def
      py_str_def digits.simps join_queue_def demo_view_def hoops_view_def
      truthy_def new_player_def remove_from_queues_def team_size_int_def Let_def)

theorem one_queue_per_player_witness:
  "queues initial_state = [] \<and>
   distinct (all_waiting (queues (fold apply_event demo_events initial_state))) \<and>
   queue_at (queues (fold apply_event demo_events initial_state)) ''NA-East'' ''Soccar'' ''1v1'' = [''2''] \<and>
   queue_at (queues (fold apply_event demo_events initial_state)) ''NA-East'' ''Hoops'' ''2v2'' = [''1''] \<and>
   set (queue_at (queues (fold apply_event demo_events initial_state)) ''NA-East'' ''Soccar'' ''1v1'') \<inter>
   set (queue_at (queues (fold apply_event demo_events initial_state)) ''NA-East'' ''Hoops'' ''2v2'') = {} \<and>
   queue_at (queues (apply_event (Join demo_view ''1'') (fold apply_event demo_events initial_state)))
     ''NA-East'' ''Soccar'' ''1v1'' = [''2'', ''1''] \<and>
   queue_at (queues (apply_event (Join demo_view ''1'') (fold apply_event demo_events initial_state)))
     ''NA-East'' ''Hoops'' ''2v2'' = []"
proof -
  have h: "queues initial_state = []" by (simp add: initial_state_def)
  have p: "players (fold apply_event demo_events initial_state) ''1'' =
      Some (new_player ''A'' ''Epic'' 1 ''NA-East'')"
    by (simp add: demo_events_state demo_registered_eq)
  have q: "queue_at (queues (fold apply_event demo_events initial_state)) ''NA-East'' ''Soccar'' ''1v1'' = [''2'']"
    "queue_at (queues (fold apply_event demo_events initial_state)) ''NA-East'' ''Hoops'' ''2v2'' = [''1'']"
    by (simp_all add: demo_events_state queue_at_def)
  from one_queue_per_player [OF h, of demo_events "''NA-East''" "''Soccar''" "''1v1''"
      "''NA-East''" "''Hoops''" "''2v2''" "''1''" "new_player ''A'' ''Epic'' 1 ''NA-East''" demo_view]
    one_queue_per_player [OF h, of demo_events "''NA-East''" "''Hoops''" "''2v2''"
      "''NA-East''" "''Soccar''" "''1v1''" "''1''" "new_player ''A'' ''Epic'' 1 ''NA-East''" demo_view]
    h p q
  show ?thesis
    by (simp add: demo_view_def truthy_def new_player_def)
qed

section \<open>A run of the queue checker\<close>

text \<open>
  A run that does not raise has visited every queue: each queue is what one visit leaves
  of it.
\<close>

lemma for_items_map:
  assumes "\<And>k v s v' s'. body k v s = ((v', s'), None) \<Longrightarrow> v' = g k v"
    and "for_items body kvs s = ((kvs', s'), None)"
  shows "kvs' = map (\<lambda>(k, v). (k, g k v)) kvs"
  using assms(2)
proof (induction kvs arbitrary: s kvs' s')
  case Nil
  then show ?case by simp
next
  case (Cons a kvs)
  obtain k v where a: "a = (k, v)" by (cases a)
  obtain v1 s1 e1 where b: "body k v s = ((v1, s1), e1)" by (metis surj_pair)
  obtain rest' s2 e2 where r: "for_items body kvs s1 = ((rest', s2), e2)" by (metis surj_pair)
  from Cons.prems a b have e1: "e1 = None" by (cases e1) auto
  with Cons.prems a b r have e2: "e2 = None" and k: "kvs' = (k, v1) # rest'" by auto
  from assms(1) [of k v s v1 s1] b e1 have "v1 = g k v" by simp
  moreover from Cons.IH [of s1 rest' s2] r e2 have "rest' = map (\<lambda>(k, v). (k, g k v)) kvs" by simp
  ultimately show ?case using a k by simp
qed

lemma map_of_map_items: "map_of (map (\<lambda>(k, v). (k, g k v)) kvs) k = map_option (g k) (map_of kvs k)"
  by (induction kvs) auto

lemma drained_Nil: "drained t [] = []"
  by (simp add: drained_def split: sum.splits)

lemma check_queue_drained: "check_queue env r m t q s = ((q', s'), e) \<Longrightarrow> q' = drained t q"
  using check_queue_list [of env r m t q s] by (simp add: drained_def)

lemma queue_checker_drains:
  assumes "queue_checker env st = (st', None)"
  shows "queue_at (queues st') r m t = drained t (queue_at (queues st) r m t)"
proof -
  let ?g3 = "\<lambda>sizes. map (\<lambda>(t, q). (t, drained t q)) sizes"
  let ?g2 = "\<lambda>modes. map (\<lambda>(m :: string, sizes). (m, ?g3 sizes)) modes"
  have l3: "sizes' = ?g3 sizes"
    if "for_items (check_queue env r m) sizes s = ((sizes', s'), None)" for r m sizes s sizes' s'
    using that by (rule for_items_map [rotated]) (rule check_queue_drained)
  have l2: "modes' = ?g2 modes"
    if "for_items (\<lambda>m. for_items (check_queue env r m)) modes s = ((modes', s'), None)"
    for r modes s modes' s'
    using that by (rule for_items_map [rotated]) (rule l3)
  have l1: "qs' = map (\<lambda>(r :: string, modes). (r, ?g2 modes)) qs"
    if "for_items (\<lambda>r. for_items (\<lambda>m. for_items (check_queue env r m))) qs s = ((qs', s'), None)"
    for qs s qs' s'
    using that by (rule for_items_map [rotated]) (rule l2)
  from assms obtain ms k where
    "for_items (\<lambda>r. for_items (\<lambda>m. for_items (check_queue env r m))) (queues st) (matches st, 0) =
       ((queues st', ms, k), None)"
    by (auto simp: queue_checker_def split: prod.splits)
  from l1 [OF this] have "queues st' = map (\<lambda>(r, modes). (r, ?g2 modes)) (queues st)" .
  then show ?thesis
    by (simp add: queue_at_def map_of_map_items drained_Nil split: option.splits)
qed

section \<open>What result processing leaves alone\<close>

lemma same_profile_refl: "same_profile p p"
  by (simp add: same_profile_def)

lemma same_profile_trans: "same_profile p q \<Longrightarrow> same_profile q r \<Longrightarrow> same_profile p r"
  by (simp add: same_profile_def)

lemma players_frame_refl: "players_frame P ps ps"
  by (simp add: players_frame_def same_profile_refl)

lemma players_frame_trans:
  assumes "players_frame P ps ps1" and "players_frame Q ps1 ps2" and "P \<subseteq> R" and "Q \<subseteq> R"
  shows "players_frame R ps ps2"
  unfolding players_frame_def
proof (intro conjI allI impI)
  fix pid assume "pid \<notin> R"
  with assms(3,4) have "pid \<notin> P" and "pid \<notin> Q" by auto
  with assms(1,2) show "ps2 pid = ps pid" by (simp add: players_frame_def)
next
  fix pid assume "ps pid = None"
  with assms show "ps2 pid = None" by (simp add: players_frame_def)
next
  fix pid p assume "ps pid = Some p"
  with assms(1) obtain p1 where p1: "ps1 pid = Some p1" "same_profile p p1"
    unfolding players_frame_def by blast
  with assms(2) obtain p2 where p2: "ps2 pid = Some p2" "same_profile p1 p2"
    unfolding players_frame_def by blast
  with p1 show "\<exists>p'. ps2 pid = Some p' \<and> same_profile p p'"
    by (auto intro: same_profile_trans)
qed

lemma update_player_mmr_cases:
  assumes "ps pid = Some p"
  shows "\<exists>p1. rank p1 = get_rank (mmr p1) \<and> same_profile p p1 \<and> stats p1 = stats p \<and>
           match_history p1 = match_history p \<and>
           update_player_mmr ps pid won opp =
             (case stats p (result_key won) of
                None \<Rightarrow> (ps(pid \<mapsto> p1), Some KeyError)
              | Some n \<Rightarrow> (ps(pid \<mapsto> p1\<lparr>stats := (stats p)(result_key won \<mapsto> n + 1)\<rparr>), None))"
proof -
  define change where
    "change = mmr_change_of won (mmr p) opp"
  define p1 where "p1 = p\<lparr>mmr := max 0 (mmr p + change), rank := get_rank (max 0 (mmr p + change))\<rparr>"
  have "rank p1 = get_rank (mmr p1)" "same_profile p p1" "stats p1 = stats p"
    "match_history p1 = match_history p"
    by (simp_all add: p1_def same_profile_def)
  moreover have "update_player_mmr ps pid won opp =
             (case stats p (result_key won) of
                None \<Rightarrow> (ps(pid \<mapsto> p1), Some KeyError)
              | Some n \<Rightarrow> (ps(pid \<mapsto> p1\<lparr>stats := (stats p)(result_key won \<mapsto> n + 1)\<rparr>), None))"
    using assms
    by (cases won; cases "stats p (result_key won)")
       (simp_all add: update_player_mmr_def Let_def result_key_def p1_def change_def)
  ultimately show ?thesis by blast
qed

lemma team_loop_registered:
  assumes "ps pid = Some p"
  shows "\<exists>p1. rank p1 = get_rank (mmr p1) \<and> same_profile p p1 \<and> stats p1 = stats p \<and>
           match_history p1 = match_history p \<and>
           team_loop m won opp now i (pid # rest) ps =
             (case stats p (result_key won) of
                None \<Rightarrow> (ps(pid \<mapsto> p1), Some KeyError)
              | Some n \<Rightarrow>
                  team_loop m won opp now (Suc i) rest
                    (ps(pid \<mapsto> p1\<lparr>stats := (stats p)(result_key won \<mapsto> n + 1),
                                   match_history := match_history p @ [history_entry_of m won (now i)]\<rparr>)))"
proof -
  from assms update_player_mmr_cases [of ps pid p won opp] obtain p1 where
    p1: "rank p1 = get_rank (mmr p1)" "same_profile p p1" "stats p1 = stats p"
      "match_history p1 = match_history p"
    and u: "update_player_mmr ps pid won opp =
             (case stats p (result_key won) of
                None \<Rightarrow> (ps(pid \<mapsto> p1), Some KeyError)
              | Some n \<Rightarrow> (ps(pid \<mapsto> p1\<lparr>stats := (stats p)(result_key won \<mapsto> n + 1)\<rparr>), None))"
    by blast
  have "team_loop m won opp now i (pid # rest) ps =
             (case stats p (result_key won) of
                None \<Rightarrow> (ps(pid \<mapsto> p1), Some KeyError)
              | Some n \<Rightarrow>
                  team_loop m won opp now (Suc i) rest
                    (ps(pid \<mapsto> p1\<lparr>stats := (stats p)(result_key won \<mapsto> n + 1),
                                   match_history := match_history p @ [history_entry_of m won (now i)]\<rparr>)))"
    using assms p1(4) by (cases "stats p (result_key won)") (simp_all add: u)
  with p1 show ?thesis by blast
qed

lemma result_key_cases: "result_key won = ''wins'' \<or> result_key won = ''losses''"
  by (simp add: result_key_def)

lemma same_profile_counted:
  assumes "same_profile p p1" and "stats p1 = stats p" and "stats p (result_key won) = Some n"
  shows "same_profile p (p1\<lparr>stats := (stats p)(result_key won \<mapsto> n + 1), match_history := h\<rparr>)"
  using assms result_key_cases [of won] by (auto simp: same_profile_def)

lemma players_frame_update:
  "ps pid = Some p \<Longrightarrow> same_profile p p' \<Longrightarrow> players_frame {pid} ps (ps(pid \<mapsto> p'))"
  by (simp add: players_frame_def same_profile_refl)

lemma team_loop_frame:
  "team_loop m won opp now i team ps = (ps', e) \<Longrightarrow> players_frame (set team) ps ps'"
proof (induction team arbitrary: ps i)
  case Nil
  then show ?case by (simp add: players_frame_refl)
next
  case (Cons pid rest)
  show ?case
  proof (cases "ps pid")
    case None
    with Cons.prems have "team_loop m won opp now (Suc i) rest ps = (ps', e)" by simp
    from Cons.IH [OF this] have "players_frame (set rest) ps ps'" .
    from players_frame_trans [OF players_frame_refl this, of "{}" "set (pid # rest)"]
    show ?thesis by auto
  next
    case (Some p)
    from Some team_loop_registered [of ps pid p m won opp now i rest] obtain p1 where
      p1: "same_profile p p1" "stats p1 = stats p"
      and t: "team_loop m won opp now i (pid # rest) ps =
             (case stats p (result_key won) of
                None \<Rightarrow> (ps(pid \<mapsto> p1), Some KeyError)
              | Some n \<Rightarrow>
                  team_loop m won opp now (Suc i) rest
                    (ps(pid \<mapsto> p1\<lparr>stats := (stats p)(result_key won \<mapsto> n + 1),
                                   match_history := match_history p @ [history_entry_of m won (now i)]\<rparr>)))"
      by blast
    show ?thesis
    proof (cases "stats p (result_key won)")
      case None
      with t Cons.prems have "ps' = ps(pid \<mapsto> p1)" by simp
      with Some p1(1) players_frame_update [of ps pid p p1]
      have "players_frame {pid} ps ps'" by simp
      from players_frame_trans [OF this players_frame_refl, of "set (pid # rest)" "{}"]
      show ?thesis by auto
    next
      case (Some n)
      let ?p2 = "p1\<lparr>stats := (stats p)(result_key won \<mapsto> n + 1),
                    match_history := match_history p @ [history_entry_of m won (now i)]\<rparr>"
      from t Some Cons.prems
      have "team_loop m won opp now (Suc i) rest (ps(pid \<mapsto> ?p2)) = (ps', e)" by simp
      from Cons.IH [OF this] have f2: "players_frame (set rest) (ps(pid \<mapsto> ?p2)) ps'" .
      from same_profile_counted [OF p1 Some] have "same_profile p ?p2" .
      from \<open>ps pid = Some p\<close> this players_frame_update [of ps pid p ?p2]
      have "players_frame {pid} ps (ps(pid \<mapsto> ?p2))" by blast
      from players_frame_trans [OF this f2, of "set (pid # rest)"]
      show ?thesis by auto
    qed
  qed
qed

lemma process_result_shape:
  assumes "process_result m w now st = (st', e)"
  shows "queues st' = queues st \<and>
    (players st' = players st \<or>
     (\<exists>n ba e1. team_loop m (w = ''Orange'') ba now 0 (take n (match_players m)) (players st) = (players st', e1)) \<or>
     (\<exists>n oa ba ps1 e2.
        team_loop m (w = ''Orange'') ba now 0 (take n (match_players m)) (players st) = (ps1, None) \<and>
        team_loop m (w = ''Blue'') oa now n (drop n (match_players m)) ps1 = (players st', e2)))"
  using assms
  by (auto simp: process_result_def Let_def split: sum.splits option.splits prod.splits)

lemma process_result_players_frame:
  assumes "process_result m w now st = (st', e)"
  shows "players_frame (set (match_players m)) (players st) (players st')"
proof -
  from process_result_shape [OF assms] consider
    (same) "players st' = players st"
  | (orange) n ba e1 where
      "team_loop m (w = ''Orange'') ba now 0 (take n (match_players m)) (players st) = (players st', e1)"
  | (both) n oa ba ps1 e2 where
      "team_loop m (w = ''Orange'') ba now 0 (take n (match_players m)) (players st) = (ps1, None)"
      "team_loop m (w = ''Blue'') oa now n (drop n (match_players m)) ps1 = (players st', e2)"
    by blast
  then show ?thesis
  proof cases
    case same
    then show ?thesis by (simp add: players_frame_refl)
  next
    case orange
    from team_loop_frame [OF orange] have "players_frame (set (take n (match_players m))) (players st) (players st')" .
    from players_frame_trans [OF this players_frame_refl, of "set (match_players m)" "{}"]
    show ?thesis by (simp add: set_take_subset)
  next
    case both
    from team_loop_frame [OF both(1)] have f1: "players_frame (set (take n (match_players m))) (players st) ps1" .
    from team_loop_frame [OF both(2)] have f2: "players_frame (set (drop n (match_players m))) ps1 (players st')" .
    from players_frame_trans [OF f1 f2, of "set (match_players m)"]
    show ?thesis by (simp add: set_take_subset set_drop_subset)
  qed
qed

text \<open>
  Claim C10. Whatever result processing returns or raises, a player who is not among
  the players of the match is unchanged, no player is added or removed, and every player
  keeps the profile fields and every counter other than wins and losses, in particular
  goals, assists and saves. The queues are unchanged too.
\<close>

theorem process_result_frame:
  assumes "process_result self_match winner now st = (st', e)"
  shows "(\<forall>pid. pid \<notin> set (match_players self_match) \<longrightarrow> players st' pid = players st pid) \<and>
         (\<forall>pid. players st pid = None \<longrightarrow> players st' pid = None) \<and>
         (\<forall>pid p. players st pid = Some p \<longrightarrow>
            (\<exists>p'. players st' pid = Some p' \<and>
               stats p' ''goals'' = stats p ''goals'' \<and>
               stats p' ''assists'' = stats p ''assists'' \<and>
               stats p' ''saves'' = stats p ''saves'' \<and>
               (\<forall>k. k \<noteq> ''wins'' \<longrightarrow> k \<noteq> ''losses'' \<longrightarrow> stats p' k = stats p k) \<and>
               discord_id p' = discord_id p \<and> rl_username p' = rl_username p \<and>
               platform p' = platform p \<and> region p' = region p)) \<and>
         queues st' = queues st"
proof -
  from process_result_players_frame [OF assms]
  have f: "players_frame (set (match_players self_match)) (players st) (players st')" .
  have "\<exists>p'. players st' pid = Some p' \<and>
               stats p' ''goals'' = stats p ''goals'' \<and>
               stats p' ''assists'' = stats p ''assists'' \<and>
               stats p' ''saves'' = stats p ''saves'' \<and>
               (\<forall>k. k \<noteq> ''wins'' \<longrightarrow> k \<noteq> ''losses'' \<longrightarrow> stats p' k = stats p k) \<and>
               discord_id p' = discord_id p \<and> rl_username p' = rl_username p \<and>
               platform p' = platform p \<and> region p' = region p"
    if "players st pid = Some p" for pid p
  proof -
    from f that obtain p' where "players st' pid = Some p'" "same_profile p p'"
      unfolding players_frame_def by blast
    then show ?thesis by (simp add: same_profile_def)
  qed
  moreover from f have "\<forall>pid. pid \<notin> set (match_players self_match) \<longrightarrow> players st' pid = players st pid"
    and "\<forall>pid. players st pid = None \<longrightarrow> players st' pid = None"
    unfolding players_frame_def by blast+
  moreover from process_result_shape [OF assms] have "queues st' = queues st" by blast
  ultimately show ?thesis by blast
qed

lemma crowded_report:
  "process_result demo_match ''Orange'' (demo_clock ''t1'') crowded_tick1 = (crowded_reported, None)"
proof -
  have "snd (process_result demo_match ''Orange'' (demo_clock ''t1'') crowded_tick1) = None"
    by (simp add: crowded_tick1_eq crowded_queued_eq new_player_def demo_match_def
      process_result_def team_size_int_def team_avg_def update_player_mmr_def Let_def)
  then show ?thesis by (simp add: crowded_reported_def prod_eq_iff)
qed

theorem process_result_frame_witness:
  "process_result demo_match ''Orange'' (demo_clock ''t1'') crowded_tick1 = (crowded_reported, None) \<and>
   ''3'' \<notin> set (match_players demo_match) \<and>
   players crowded_reported ''3'' = Some (new_player ''C'' ''Switch'' 3 ''NA-East'') \<and>
   players crowded_reported ''5'' = None \<and>
   (\<exists>p'. players crowded_reported ''1'' = Some p' \<and>
         stats p' ''goals'' = Some 0 \<and> stats p' ''assists'' = Some 0 \<and> stats p' ''saves'' = Some 0 \<and>
         rl_username p' = ''A'') \<and>
   queues crowded_reported = [(''NA-East'', [(''Soccar'', [(''1v1'', [''3'', ''4''])])])]"
proof -
  note h = crowded_report
  have p: "players crowded_tick1 ''1'' = Some (new_player ''A'' ''Epic'' 1 ''NA-East'')"
    "players crowded_tick1 ''3'' = Some (new_player ''C'' ''Switch'' 3 ''NA-East'')"
    "players crowded_tick1 ''5'' = None"
    "''3'' \<notin> set (match_players demo_match)"
    "queues crowded_tick1 = [(''NA-East'', [(''Soccar'', [(''1v1'', [''3'', ''4''])])])]"
    by (simp_all add: crowded_tick1_eq crowded_queued_eq demo_match_def)
  note f = process_result_frame [OF h]
  note f1 = f [THEN conjunct1, rule_format]
  note f2 = f [THEN conjunct2, THEN conjunct1, rule_format]
  note f3 = f [THEN conjunct2, THEN conjunct2, THEN conjunct1, rule_format]
  note f4 = f [THEN conjunct2, THEN conjunct2, THEN conjunct2]
  from f1 [OF p(4)] p(2) have a: "players crowded_reported ''3'' = Some (new_player ''C'' ''Switch'' 3 ''NA-East'')"
    by simp
  from f2 [OF p(3)] have b: "players crowded_reported ''5'' = None" .
  from f3 [OF p(1)] obtain p' where p': "players crowded_reported ''1'' = Some p'"
    "stats p' ''goals'' = stats (new_player ''A'' ''Epic'' 1 ''NA-East'') ''goals''"
    "stats p' ''assists'' = stats (new_player ''A'' ''Epic'' 1 ''NA-East'') ''assists''"
    "stats p' ''saves'' = stats (new_player ''A'' ''Epic'' 1 ''NA-East'') ''saves''"
    "rl_username p' = rl_username (new_player ''A'' ''Epic'' 1 ''NA-East'')"
    by blast
  then have c: "\<exists>p'. players crowded_reported ''1'' = Some p' \<and>
         stats p' ''goals'' = Some 0 \<and> stats p' ''assists'' = Some 0 \<and> stats p' ''saves'' = Some 0 \<and>
         rl_username p' = ''A''"
    by (simp add: new_player_def)
  from f4 p(5) have d: "queues crowded_reported = [(''NA-East'', [(''Soccar'', [(''1v1'', [''3'', ''4''])])])]"
    by simp
  from h p(4) a b c d show ?thesis by blast
qed

section \<open>The team average\<close>

text \<open>
  Claim C7. The average of a team is taken over the members found in the registry. The
  code divides the sum over the registered members by the length of the whole team: a
  team of one registered player rated 1000 and one unknown id gets the average 500.
\<close>

theorem team_avg_counts_missing_members:
  "team_avg [''1'' \<mapsto> new_player ''A'' ''Epic'' 1 ''EU''] [''1'', ''2''] = Inr 500 \<and>
   mmr (new_player ''A'' ''Epic'' 1 ''EU'') = 1000"
  by (simp add: team_avg_def new_player_def)

text \<open>
  A team that is not empty and has no registered member gets the average 0 without a
  raise, and its loop changes nothing. Only an empty team raises.
\<close>

lemma team_avg_no_resolvable:
  assumes "team \<noteq> []" and "\<forall>p \<in> set team. ps p = None"
  shows "team_avg ps team = Inr 0" and "team_loop m won opp now i team ps = (ps, None)"
proof -
  from assms(2) have "filter (\<lambda>p. ps p \<noteq> None) team = []" by (induction team) auto
  with assms(1) show "team_avg ps team = Inr 0" by (simp add: team_avg_def)
  from assms(2) show "team_loop m won opp now i team ps = (ps, None)"
    by (induction team arbitrary: i) auto
qed

lemma team_avg_Inr: "team \<noteq> [] \<Longrightarrow> \<exists>a. team_avg ps team = Inr a"
  by (simp add: team_avg_def)

lemma team_avg_empty: "team_avg ps [] = Inl ZeroDivisionError"
  by (simp add: team_avg_def)

section \<open>A second report on the same match\<close>

















end
